theory Spec2Isabelle
  imports Complex_Main "HOL-Library.Multiset"
begin

section \<open>Python values\<close>

text \<open>
  The benchmark is a Python notebook driving Spark. Exceptions are values of the type
  \<open>error\<close>, each carrying the text that \<^verbatim>\<open>str(e)\<close> gives; a computation that can
  raise returns \<open>error + 'a\<close>. Exceptions that come out of the cluster, HDFS or the learning
  library are \<open>SparkError\<close>. All of them are subclasses of Python's \<^verbatim>\<open>Exception\<close>.
\<close>

datatype error =
    OverflowError string
  | UnboundLocalError string
  | ValueError string
  | SparkError string

fun error_message :: "error \<Rightarrow> string" where
  "error_message (OverflowError msg) = msg"
| "error_message (UnboundLocalError msg) = msg"
| "error_message (ValueError msg) = msg"
| "error_message (SparkError msg) = msg"

text \<open>
  Python integers are unbounded (\<open>int\<close>); a Python float is an IEEE double, modelled by
  the real number it denotes. Converting an integer to a double keeps 53 significant bits
  and rounds to nearest, ties to even: \<open>float_of_nat\<close> is that rounding on magnitudes,
  with the result written as the natural number the double denotes. An operation whose
  rounded result has magnitude \<open>2 ^ 1024\<close> or more leaves the range of finite doubles.
\<close>

fun bit_length :: "nat \<Rightarrow> nat" where
  "bit_length n = (if n = 0 then 0 else Suc (bit_length (n div 2)))"

declare bit_length.simps [simp del]

definition round_half_even :: "nat \<Rightarrow> nat \<Rightarrow> nat" where
  "round_half_even e m =
     (let q = m div 2 ^ e; r = m mod 2 ^ e
      in if 2 ^ e < 2 * r \<or> (2 * r = 2 ^ e \<and> odd q) then (q + 1) * 2 ^ e else q * 2 ^ e)"

definition float_of_nat :: "nat \<Rightarrow> nat" where
  "float_of_nat m = round_half_even (bit_length m - 53) m"

definition float_overflow :: "real \<Rightarrow> bool" where
  "float_overflow x \<longleftrightarrow> 2 ^ 1024 \<le> \<bar>x\<bar>"

text \<open>\<^verbatim>\<open>int(x)\<close> on a float truncates towards zero.\<close>

definition py_int :: "real \<Rightarrow> int" where
  "py_int x = (if 0 \<le> x then \<lfloor>x\<rfloor> else - \<lfloor>- x\<rfloor>)"

text \<open>\<^verbatim>\<open>str(i)\<close> on an integer: its decimal digits, with a minus sign when negative.\<close>

fun str_nat :: "nat \<Rightarrow> string" where
  "str_nat n =
     (if n < 10 then [''0123456789'' ! n]
      else str_nat (n div 10) @ [''0123456789'' ! (n mod 10)])"

declare str_nat.simps [simp del]

definition py_str :: "int \<Rightarrow> string" where
  "py_str i = (if i < 0 then CHR ''-'' # str_nat (nat (- i)) else str_nat (nat i))"

subsection \<open>Arithmetic on doubles\<close>

text \<open>
  A double is a real number, an infinity with its sign (\<open>True\<close> for the negative one)
  or a NaN; the two zeros are not told apart. \<open>fl\<close> rounds a real to the nearest
  double, ties to even: the spacing of the doubles around \<open>x\<close> is \<open>2 ^ (e - 52)\<close>
  for the exponent \<open>e\<close> of \<open>x\<close>, and no less than \<open>2 ^ - 1074\<close>. A result that
  rounds to \<open>2 ^ 1024\<close> or more is an infinity. Addition, subtraction and division
  round their exact result; neither Python's floats nor numpy's raise on these.
\<close>

datatype float64 = Finite real | Infinity bool | NaN

definition pow2 :: "int \<Rightarrow> real" where
  "pow2 a = (if 0 \<le> a then 2 ^ nat a else 1 / 2 ^ nat (- a))"

definition float_exponent :: "real \<Rightarrow> int" where
  "float_exponent x =
     (if 1 \<le> x then int (bit_length (nat \<lfloor>x\<rfloor>)) - 1
      else - int (bit_length (nat (\<lceil>1 / x\<rceil> - 1))))"

definition round_half_even_real :: "real \<Rightarrow> int" where
  "round_half_even_real q =
     (let f = \<lfloor>q\<rfloor>; d = q - of_int f
      in if d < 1 / 2 then f else if 1 / 2 < d then f + 1 else if even f then f else f + 1)"

definition round_to_double :: "real \<Rightarrow> real" where
  "round_to_double x =
     (if x = 0 then 0
      else let ulp = pow2 (max (float_exponent x) (- 1022) - 52)
           in of_int (round_half_even_real (x / ulp)) * ulp)"

definition fl :: "real \<Rightarrow> float64" where
  "fl x =
     (let m = round_to_double \<bar>x\<bar>
      in if float_overflow m then Infinity (x < 0) else Finite (if x < 0 then - m else m))"

fun float_add :: "float64 \<Rightarrow> float64 \<Rightarrow> float64" where
  "float_add (Finite x) (Finite y) = fl (x + y)"
| "float_add NaN _ = NaN"
| "float_add _ NaN = NaN"
| "float_add (Infinity s) (Infinity t) = (if s = t then Infinity s else NaN)"
| "float_add (Infinity s) (Finite y) = Infinity s"
| "float_add (Finite x) (Infinity t) = Infinity t"

fun float_neg :: "float64 \<Rightarrow> float64" where
  "float_neg (Finite x) = Finite (- x)"
| "float_neg (Infinity s) = Infinity (\<not> s)"
| "float_neg NaN = NaN"

definition float_sub :: "float64 \<Rightarrow> float64 \<Rightarrow> float64" where
  "float_sub x y = float_add x (float_neg y)"

text \<open>A double divided by a count, as numpy divides the sum by the number of items.\<close>

fun float_div_count :: "float64 \<Rightarrow> nat \<Rightarrow> float64" where
  "float_div_count NaN n = NaN"
| "float_div_count (Infinity s) n = Infinity s"
| "float_div_count (Finite x) n =
     (if n = 0 then (if x = 0 then NaN else Infinity (x < 0)) else fl (x / real n))"

section \<open>Sizing the cluster: \<^verbatim>\<open>bytes_to_gb\<close> and \<^verbatim>\<open>configure_spark\<close>\<close>

text \<open>
  \<^verbatim>\<open>size_bytes / (1024 * 1024 * 1024)\<close> is Python's true division of two integers: the
  correctly rounded quotient. The divisor is a power of two, so the quotient is the
  rounded numerator, scaled; Python raises \<^verbatim>\<open>OverflowError\<close> when it is too large for a
  float.
\<close>

definition bytes_to_gb :: "int \<Rightarrow> error + real" where
  "bytes_to_gb size_bytes =
     (let quotient = of_int (sgn size_bytes * int (float_of_nat (nat \<bar>size_bytes\<bar>)))
                       / (1024 * 1024 * 1024)
      in if float_overflow quotient
         then Inl (OverflowError ''integer division result too large for a float'')
         else Inr quotient)"

text \<open>
  \<^verbatim>\<open>configure_spark\<close> returns the pair \<^verbatim>\<open>(executor_cores, executor_memory)\<close>, the memory
  as a string such as \<^verbatim>\<open>"4g"\<close>. Doubling a double is exact unless it overflows to
  infinity, and \<^verbatim>\<open>int\<close> of an infinity raises \<^verbatim>\<open>OverflowError\<close>. The function has no
  other way to fail; in particular it does not look at the sign of its argument.
\<close>

definition configure_spark :: "real \<Rightarrow> error + int \<times> string" where
  "configure_spark dataset_size_gb =
     (let core_factor = 2;
          memory_factor = 1;
          scaled = dataset_size_gb * of_int core_factor
      in if float_overflow scaled
         then Inl (OverflowError ''cannot convert float infinity to integer'')
         else
           let executor_cores = py_int scaled + 2;
               executor_cores =
                 (if executor_cores mod 2 \<noteq> 0 then executor_cores + 1 else executor_cores);
               executor_memory = py_str (min executor_cores 4 * memory_factor) @ ''g''
           in Inr (executor_cores, executor_memory))"

text \<open>
  The sizing step of \<^verbatim>\<open>build_spark_session\<close>:
  \<^verbatim>\<open>executor_cores, executor_memory = configure_spark(bytes_to_gb(fileSize))\<close>.
\<close>

definition size_estimator :: "int \<Rightarrow> error + int \<times> string" where
  "size_estimator fileSize =
     (case bytes_to_gb fileSize of Inl e \<Rightarrow> Inl e | Inr gb \<Rightarrow> configure_spark gb)"

text \<open>The step from an integer to the next even one, as a function of its own.\<close>

definition next_even :: "int \<Rightarrow> int" where
  "next_even k = (if k mod 2 \<noteq> 0 then k + 1 else k)"

section \<open>Data frames\<close>

text \<open>
  The benchmark reads every file under \<^verbatim>\<open>schema_v1\<close>: three nullable string columns. A
  data frame is the list of its rows.
\<close>

record row =
  subreddit :: "string option"
  summary :: "string option"
  content :: "string option"

type_synonym dataframe = "row list"

subsection \<open>\<^verbatim>\<open>filter_data\<close>\<close>

text \<open>
  \<^verbatim>\<open>groupBy("subreddit").count()\<close> gives one row per distinct value with the number of its
  occurrences. Spark fixes neither the order of the groups nor the order of groups with
  equal counts after \<^verbatim>\<open>orderBy(col("count").desc())\<close>, so the ordering is a parameter:
  the engine's \<open>order_by_count_desc\<close>.
\<close>

definition not_null_rows :: "dataframe \<Rightarrow> dataframe" where
  "not_null_rows df =
     filter (\<lambda>r. subreddit r \<noteq> None \<and> summary r \<noteq> None \<and> content r \<noteq> None) df"

definition group_count :: "'k list \<Rightarrow> ('k \<times> nat) list" where
  "group_count ks = map (\<lambda>k. (k, count_list ks k)) (remdups ks)"

definition subreddit_counts :: "dataframe \<Rightarrow> (string option \<times> nat) list" where
  "subreddit_counts df = group_count (map subreddit df)"

definition filter_data ::
  "((string option \<times> nat) list \<Rightarrow> (string option \<times> nat) list) \<Rightarrow> dataframe \<Rightarrow> dataframe" where
  "filter_data order_by_desc df =
     (let df_filtered = not_null_rows df;
          df_counts = order_by_desc (subreddit_counts df_filtered);
          top_25_counts = take 25 df_counts;
          top_25_subreddits = map fst top_25_counts;
          df_filtered = filter (\<lambda>r. subreddit r \<in> set top_25_subreddits) df_filtered
      in df_filtered)"

section \<open>The process and its collaborators\<close>

text \<open>
  Everything outside the notebook's process (the cluster, HDFS, the wall clock, the machine-learning
  library) is an abstract state \<open>'w\<close>, changed by each call into it; the calls are the
  fields of \<open>engine\<close>, and any of them that can raise returns an error. \<open>'m\<close> is the
  type of fitted models. A seeded \<^verbatim>\<open>randomSplit\<close> depends on its weights, its seed and the
  data alone; without a seed the library draws one from the ambient random generator.
\<close>

record ('w, 'm) engine =
  time_time :: "'w \<Rightarrow> real \<times> 'w"
  launch_session :: "(string \<times> string) list \<Rightarrow> 'w \<Rightarrow> error option \<times> 'w"
  get_len :: "string \<Rightarrow> string \<Rightarrow> 'w \<Rightarrow> (error + int) \<times> 'w"
  read_json :: "string \<Rightarrow> 'w \<Rightarrow> (error + dataframe) \<times> 'w"
  order_by_count_desc :: "(string option \<times> nat) list \<Rightarrow> (string option \<times> nat) list"
  seeded_split :: "real list \<Rightarrow> int \<Rightarrow> dataframe \<Rightarrow> error + dataframe list"
  random_seed :: "'w \<Rightarrow> int \<times> 'w"
  pipeline_fit :: "dataframe \<Rightarrow> 'w \<Rightarrow> (error + 'm) \<times> 'w"
  accuracy_of :: "'m \<Rightarrow> dataframe \<Rightarrow> 'w \<Rightarrow> (error + real) \<times> 'w"

text \<open>
  The process holds the live Spark sessions (a session is the list of its options) and
  what it has printed. \<open>peak_sessions\<close> is not a variable of the notebook: it records
  the largest number of sessions that were live at the same time.
\<close>

type_synonym session = "(string \<times> string) list"

record 'w process =
  cluster :: 'w
  sessions :: "session list"
  peak_sessions :: nat
  stdout :: "string list"

type_synonym ('a, 'w) action = "'w process \<Rightarrow> (error + 'a) \<times> 'w process"

definition return_action :: "'a \<Rightarrow> ('a, 'w) action" where
  "return_action a s = (Inr a, s)"

definition raise :: "error \<Rightarrow> ('a, 'w) action" where
  "raise e s = (Inl e, s)"

definition bind_action :: "('a, 'w) action \<Rightarrow> ('a \<Rightarrow> ('b, 'w) action) \<Rightarrow> ('b, 'w) action" where
  "bind_action m f s = (case m s of (Inl e, s') \<Rightarrow> (Inl e, s') | (Inr a, s') \<Rightarrow> f a s')"

definition lift_result :: "error + 'a \<Rightarrow> ('a, 'w) action" where
  "lift_result r s = (r, s)"

definition external :: "('w \<Rightarrow> (error + 'a) \<times> 'w) \<Rightarrow> ('a, 'w) action" where
  "external call s = (case call (cluster s) of (r, w') \<Rightarrow> (r, s\<lparr>cluster := w'\<rparr>))"

definition print_line :: "string \<Rightarrow> (unit, 'w) action" where
  "print_line line s = (Inr (), s\<lparr>stdout := stdout s @ [line]\<rparr>)"

definition clock :: "('w, 'm) engine \<Rightarrow> (real, 'w) action" where
  "clock eng = external (\<lambda>w. case time_time eng w of (t, w') \<Rightarrow> (Inr t, w'))"

subsection \<open>Sessions\<close>

text \<open>
  \<^verbatim>\<open>SparkSession.builder...getOrCreate()\<close> returns the live session when there is one and
  launches a session otherwise, which can fail. \<^verbatim>\<open>stop()\<close> stops the Spark context,
  and with it every session of the process.
\<close>

definition getOrCreate :: "('w, 'm) engine \<Rightarrow> session \<Rightarrow> (session, 'w) action" where
  "getOrCreate eng options s =
     (case sessions s of
        live # _ \<Rightarrow> (Inr live, s)
      | [] \<Rightarrow>
          (case launch_session eng options (cluster s) of
             (Some e, w') \<Rightarrow> (Inl e, s\<lparr>cluster := w'\<rparr>)
           | (None, w') \<Rightarrow>
               (Inr options,
                s\<lparr>cluster := w',
                  sessions := options # sessions s,
                  peak_sessions := max (peak_sessions s) (Suc (length (sessions s)))\<rparr>)))"

definition stop :: "(unit, 'w) action" where
  "stop s = (Inr (), s\<lparr>sessions := []\<rparr>)"

definition conf_get :: "session \<Rightarrow> string \<Rightarrow> error + string" where
  "conf_get spark_session key =
     (case map_of spark_session key of
        None \<Rightarrow> Inl (SparkError key)
      | Some v \<Rightarrow> Inr v)"

definition session_options :: "int \<Rightarrow> string \<Rightarrow> session" where
  "session_options executor_cores executor_memory =
     [(''spark.master'', ''spark://192.168.2.156:7077''),
      (''spark.app.name'', ''Project Group 32''),
      (''spark.dynamicAllocation.enabled'', ''true''),
      (''spark.dynamicAllocation.shuffleTracking.enabled'', ''true''),
      (''spark.shuffle.service.enabled'', ''false''),
      (''spark.dynamicAllocation.executorIdleTimeout'', ''60s''),
      (''spark.executor.cores'', py_str (min executor_cores 4)),
      (''spark.executor.memory'', executor_memory),
      (''spark.cores.max'', py_str (min executor_cores 32)),
      (''spark.driver.port'', ''9999''),
      (''spark.blockManager.port'', ''10005'')]"

text \<open>
  \<^verbatim>\<open>build_spark_session\<close> (with \<^verbatim>\<open>verbose=False\<close>, as the benchmark calls it): a first
  session asks HDFS for the length of the file and is stopped, the length is turned into
  executor settings, and the session that does the work is built from them.
\<close>

definition build_spark_session ::
  "('w, 'm) engine \<Rightarrow> string \<Rightarrow> string \<Rightarrow> (session \<times> int, 'w) action" where
  "build_spark_session eng hdfs_path file_path =
     bind_action (getOrCreate eng [(''spark.app.name'', ''Project Group 32 HDFSFileSize'')]) (\<lambda>spark.
     bind_action (external (get_len eng hdfs_path file_path)) (\<lambda>fileSize.
     bind_action stop (\<lambda>_.
     bind_action (lift_result (size_estimator fileSize)) (\<lambda>(executor_cores, executor_memory).
     bind_action (getOrCreate eng (session_options executor_cores executor_memory)) (\<lambda>spark_session.
     return_action (spark_session, fileSize))))))"

subsection \<open>Loading, splitting, training, scoring\<close>

definition load_data :: "('w, 'm) engine \<Rightarrow> string \<Rightarrow> string \<Rightarrow> (dataframe, 'w) action" where
  "load_data eng hdfs_path file_path = external (read_json eng (hdfs_path @ file_path))"

definition randomSplit ::
  "('w, 'm) engine \<Rightarrow> real list \<Rightarrow> int option \<Rightarrow> dataframe \<Rightarrow> (dataframe list, 'w) action" where
  "randomSplit eng weights seed df =
     (case seed of
        Some sd \<Rightarrow> lift_result (seeded_split eng weights sd df)
      | None \<Rightarrow>
          bind_action (external (\<lambda>w. case random_seed eng w of (sd, w') \<Rightarrow> (Inr sd, w'))) (\<lambda>sd.
          lift_result (seeded_split eng weights sd df)))"

definition split_data ::
  "('w, 'm) engine \<Rightarrow> dataframe \<Rightarrow> int \<Rightarrow> real \<Rightarrow> (dataframe \<times> dataframe, 'w) action" where
  "split_data eng df seed test_fraction =
     bind_action (randomSplit eng [1 - test_fraction, test_fraction] (Some seed) df) (\<lambda>parts.
     case parts of
       [train_data, test_data] \<Rightarrow> return_action (train_data, test_data)
     | _ # _ # _ # _ \<Rightarrow> raise (ValueError ''too many values to unpack (expected 2)'')
     | _ \<Rightarrow>
         raise (ValueError (''not enough values to unpack (expected 2, got ''
                            @ py_str (int (length parts)) @ '')'')))"

definition random_forest :: "('w, 'm) engine \<Rightarrow> dataframe \<Rightarrow> ('m, 'w) action" where
  "random_forest eng train_data = external (pipeline_fit eng train_data)"

definition model_eval :: "('w, 'm) engine \<Rightarrow> 'm \<Rightarrow> dataframe \<Rightarrow> (real, 'w) action" where
  "model_eval eng model test_data = external (accuracy_of eng model test_data)"

section \<open>The benchmark harness\<close>

subsection \<open>One repetition\<close>

text \<open>
  What one pass through the loop body of \<^verbatim>\<open>evaluate_performance\<close> measures and reads:
  the four durations and the accuracy, and the values it leaves in the local variables
  \<^verbatim>\<open>fileSize\<close>, \<^verbatim>\<open>executor_cores\<close>, \<^verbatim>\<open>executor_memory\<close> and \<^verbatim>\<open>max_cores\<close>.
\<close>

record run =
  run_load_time :: float64
  run_train_time :: float64
  run_eval_time :: float64
  run_total_time :: float64
  run_accuracy :: real
  run_fileSize :: int
  run_executor_cores :: string
  run_executor_memory :: string
  run_max_cores :: string

text \<open>
  The loop body, with \<^verbatim>\<open>verbose=False\<close>. \<^verbatim>\<open>split_data(df)\<close> is called with its defaults,
  \<^verbatim>\<open>seed=42\<close> and \<^verbatim>\<open>test_fraction=0.2\<close>. The body has no exception handler: a step that
  raises ends it there, and \<^verbatim>\<open>spark_context.stop()\<close> is reached only when every step
  before it has returned. The clock readings and the accuracy are doubles; the durations
  are their rounded differences.
\<close>

definition run_once ::
  "('w, 'm) engine \<Rightarrow> string \<Rightarrow> string \<Rightarrow> nat \<Rightarrow> (run, 'w) action" where
  "run_once eng hdfs_path file_path i =
     bind_action (print_line (''File '' @ file_path @ '', run '' @ py_str (int i))) (\<lambda>_.
     bind_action (clock eng) (\<lambda>start_time.
     bind_action (build_spark_session eng hdfs_path file_path) (\<lambda>(spark_session, fileSize).
     bind_action (load_data eng hdfs_path file_path) (\<lambda>df.
     bind_action (return_action (filter_data (order_by_count_desc eng) df)) (\<lambda>df.
     bind_action (split_data eng df 42 0.2) (\<lambda>(train_data, test_data).
     bind_action (clock eng) (\<lambda>data_time.
     bind_action (random_forest eng train_data) (\<lambda>model.
     bind_action (clock eng) (\<lambda>train_time.
     bind_action (model_eval eng model test_data) (\<lambda>model_accuracy.
     bind_action (clock eng) (\<lambda>eval_time.
     bind_action (lift_result (conf_get spark_session ''spark.executor.cores'')) (\<lambda>executor_cores.
     bind_action (lift_result (conf_get spark_session ''spark.executor.memory'')) (\<lambda>executor_memory.
     bind_action (lift_result (conf_get spark_session ''spark.cores.max'')) (\<lambda>max_cores.
     bind_action stop (\<lambda>_.
     bind_action (clock eng) (\<lambda>end_time.
     return_action
       \<lparr>run_load_time = float_sub (Finite data_time) (Finite start_time),
        run_train_time = float_sub (Finite train_time) (Finite data_time),
        run_eval_time = float_sub (Finite eval_time) (Finite train_time),
        run_total_time = float_sub (Finite end_time) (Finite start_time),
        run_accuracy = model_accuracy,
        run_fileSize = fileSize,
        run_executor_cores = executor_cores,
        run_executor_memory = executor_memory,
        run_max_cores = max_cores\<rparr>))))))))))))))))"

subsection \<open>\<^verbatim>\<open>evaluate_performance\<close>\<close>

text \<open>
  The local variables of \<^verbatim>\<open>evaluate_performance\<close>: five arrays made by \<^verbatim>\<open>np.zeros(n)\<close>,
  and the four names bound in the loop body, unbound until the body has run once.
\<close>

record locals =
  overall_exec_time :: "float64 list"
  data_load_time :: "float64 list"
  training_time :: "float64 list"
  evaluation_time :: "float64 list"
  model_accuracy :: "float64 list"
  last_session :: "(int \<times> string \<times> string \<times> string) option"

definition np_zeros :: "nat \<Rightarrow> float64 list" where
  "np_zeros n = replicate n (Finite 0)"

text \<open>
  \<^verbatim>\<open>a.mean()\<close> on a one-dimensional float64 array is numpy's sum of the array divided by
  the number of its items. The sum is numpy's pairwise summation, added to an initial
  zero: fewer than 8 items are added from left to right; up to 128 items are added in 8
  lanes, item \<open>i\<close> into lane \<open>i mod 8\<close>, as long as 8 items are left, the lanes are
  combined in pairs, and the items left over are added to the result; a longer array is
  cut in two, the first part a multiple of 8 long, and the sums of the parts are added.
\<close>

fun sum_from :: "float64 \<Rightarrow> float64 list \<Rightarrow> float64" where
  "sum_from res [] = res"
| "sum_from res (x # xs) = sum_from (float_add res x) xs"

function lanes :: "float64 list \<Rightarrow> float64 list \<Rightarrow> float64 list \<times> float64 list" where
  "lanes r xs =
     (if length xs < 8 then (r, xs)
      else lanes (map2 float_add r (take 8 xs)) (drop 8 xs))"
  by pat_completeness auto
termination
  by (relation "measure (\<lambda>(r, xs). length xs)") auto

declare lanes.simps [simp del]

fun combine_lanes :: "float64 list \<Rightarrow> float64" where
  "combine_lanes [r0, r1, r2, r3, r4, r5, r6, r7] =
     float_add (float_add (float_add r0 r1) (float_add r2 r3))
               (float_add (float_add r4 r5) (float_add r6 r7))"
| "combine_lanes _ = NaN"

function pairwise_sum :: "float64 list \<Rightarrow> float64" where
  "pairwise_sum a =
     (let n = length a
      in if n < 8 then sum_from (Finite 0) a
         else if n \<le> 128 then
           (case lanes (take 8 a) (drop 8 a) of (r, rest) \<Rightarrow> sum_from (combine_lanes r) rest)
         else
           let n2 = n div 2; n2 = n2 - n2 mod 8
           in float_add (pairwise_sum (take n2 a)) (pairwise_sum (drop n2 a)))"
  by pat_completeness auto
termination
  by (relation "measure length") (auto simp add: Let_def)

declare pairwise_sum.simps [simp del]

definition np_mean :: "float64 list \<Rightarrow> float64" where
  "np_mean a = float_div_count (float_add (Finite 0) (pairwise_sum a)) (length a)"

definition initial_locals :: "nat \<Rightarrow> locals" where
  "initial_locals n =
     \<lparr>overall_exec_time = np_zeros n,
      data_load_time = np_zeros n,
      training_time = np_zeros n,
      evaluation_time = np_zeros n,
      model_accuracy = np_zeros n,
      last_session = None\<rparr>"

text \<open>
  The stores of the loop body at index \<open>i\<close>. They are written after the repetition
  here; in the notebook each follows its measurement, which makes no difference, since a
  repetition that raises takes the arrays with it.
\<close>

definition store_run :: "nat \<Rightarrow> run \<Rightarrow> locals \<Rightarrow> locals" where
  "store_run i r vars =
     vars\<lparr>data_load_time := (data_load_time vars)[i := run_load_time r],
          training_time := (training_time vars)[i := run_train_time r],
          model_accuracy := (model_accuracy vars)[i := Finite (run_accuracy r)],
          evaluation_time := (evaluation_time vars)[i := run_eval_time r],
          overall_exec_time := (overall_exec_time vars)[i := run_total_time r],
          last_session :=
            Some (run_fileSize r, run_executor_cores r, run_executor_memory r, run_max_cores r)\<rparr>"

definition loop_body ::
  "('w, 'm) engine \<Rightarrow> string \<Rightarrow> string \<Rightarrow> nat \<Rightarrow> locals \<Rightarrow> (locals, 'w) action" where
  "loop_body eng hdfs_path file_path i vars =
     bind_action (run_once eng hdfs_path file_path i) (\<lambda>r.
     return_action (store_run i r vars))"

text \<open>\<^verbatim>\<open>for i in range(n)\<close>, started as \<open>for_range body 0 n\<close>.\<close>

fun for_range :: "(nat \<Rightarrow> 'l \<Rightarrow> ('l, 'w) action) \<Rightarrow> nat \<Rightarrow> nat \<Rightarrow> 'l \<Rightarrow> ('l, 'w) action" where
  "for_range body i 0 vars s = (Inr vars, s)"
| "for_range body i (Suc k) vars s =
     (case body i vars s of
        (Inl e, s') \<Rightarrow> (Inl e, s')
      | (Inr vars', s') \<Rightarrow> for_range body (Suc i) k vars' s')"

text \<open>The list that \<^verbatim>\<open>evaluate_performance\<close> returns, one field per element.\<close>

record performance =
  File_size :: real
  Executor_cores :: string
  Executor_memory :: string
  Max_cores :: string
  Data_load_time :: float64
  Training_time :: float64
  Evaluation_time :: float64
  Overall_exec_time :: float64
  Model_accuracy :: float64

definition evaluate_performance ::
  "('w, 'm) engine \<Rightarrow> string \<Rightarrow> string \<Rightarrow> nat \<Rightarrow> (performance, 'w) action" where
  "evaluate_performance eng hdfs_path file_path n =
     bind_action (for_range (loop_body eng hdfs_path file_path) 0 n (initial_locals n)) (\<lambda>vars.
     case last_session vars of
       None \<Rightarrow>
         raise (UnboundLocalError ''local variable 'fileSize' referenced before assignment'')
     | Some (fileSize, executor_cores, executor_memory, max_cores) \<Rightarrow>
         bind_action (lift_result (bytes_to_gb fileSize)) (\<lambda>file_size_gb.
         return_action
           \<lparr>File_size = file_size_gb,
            Executor_cores = executor_cores,
            Executor_memory = executor_memory,
            Max_cores = max_cores,
            Data_load_time = np_mean (data_load_time vars),
            Training_time = np_mean (training_time vars),
            Evaluation_time = np_mean (evaluation_time vars),
            Overall_exec_time = np_mean (overall_exec_time vars),
            Model_accuracy = np_mean (model_accuracy vars)\<rparr>))"

text \<open>
  The per-repetition measurements of a data set, in the words of the specification: the
  list of the \<open>run\<close>s of \<open>k\<close> repetitions numbered from \<open>i\<close>, each started in the state
  the one before left. The list exists only when all of them return.
\<close>

fun repetitions ::
  "('w, 'm) engine \<Rightarrow> string \<Rightarrow> string \<Rightarrow> nat \<Rightarrow> nat \<Rightarrow> (run list, 'w) action" where
  "repetitions eng hdfs_path file_path i 0 s = (Inr [], s)"
| "repetitions eng hdfs_path file_path i (Suc k) s =
     (case run_once eng hdfs_path file_path i s of
        (Inl e, s') \<Rightarrow> (Inl e, s')
      | (Inr r, s') \<Rightarrow>
          (case repetitions eng hdfs_path file_path (Suc i) k s' of
             (Inl e, s'') \<Rightarrow> (Inl e, s'')
           | (Inr rs, s'') \<Rightarrow> (Inr (r # rs), s'')))"

text \<open>The stores of consecutive repetitions, the first at index \<open>i\<close>.\<close>

fun store_runs :: "nat \<Rightarrow> run list \<Rightarrow> locals \<Rightarrow> locals" where
  "store_runs i [] vars = vars"
| "store_runs i (r # rs) vars = store_runs (Suc i) rs (store_run i r vars)"

subsection \<open>The loop over the files\<close>

text \<open>
  \<^verbatim>\<open>try: res = evaluate_performance(...); results.append([file[:-5]] + res)\<close>
  \<^verbatim>\<open>except Exception as e:\<close> print two lines and go on with the next file.
\<close>

definition print_crash :: "string \<Rightarrow> error \<Rightarrow> 'w process \<Rightarrow> 'w process" where
  "print_crash file e s =
     s\<lparr>stdout := stdout s @ [''Crashed when evaluating '' @ file @ '' with error:'', error_message e]\<rparr>"

fun benchmark_files ::
  "('w, 'm) engine \<Rightarrow> string \<Rightarrow> string \<Rightarrow> nat \<Rightarrow> string list \<Rightarrow> (string \<times> performance) list
   \<Rightarrow> 'w process \<Rightarrow> (string \<times> performance) list \<times> 'w process" where
  "benchmark_files eng hdfs_path file_path n [] results s = (results, s)"
| "benchmark_files eng hdfs_path file_path n (file # files) results s =
     (case evaluate_performance eng hdfs_path (file_path @ file) n s of
        (Inr res, s') \<Rightarrow>
          benchmark_files eng hdfs_path file_path n files
            (results @ [(take (length file - 5) file, res)]) s'
      | (Inl e, s') \<Rightarrow>
          benchmark_files eng hdfs_path file_path n files results (print_crash file e s'))"

section \<open>Properties of actions\<close>

text \<open>
  Three properties of an action, used to follow the sessions through the harness: it
  keeps the bound of one live session, it leaves the sessions alone, or it returns with
  no session left and raises with the sessions as they were.
\<close>

definition session_bound :: "'w process \<Rightarrow> bool" where
  "session_bound s \<longleftrightarrow> length (sessions s) \<le> 1 \<and> peak_sessions s \<le> 1"

definition keeps_bound :: "('a, 'w) action \<Rightarrow> bool" where
  "keeps_bound m \<longleftrightarrow> (\<forall>s r s'. session_bound s \<longrightarrow> m s = (r, s') \<longrightarrow> session_bound s')"

definition keeps_sessions :: "('a, 'w) action \<Rightarrow> bool" where
  "keeps_sessions m \<longleftrightarrow>
     (\<forall>s r s'. m s = (r, s') \<longrightarrow> sessions s' = sessions s \<and> peak_sessions s' = peak_sessions s)"

definition stops_on_return :: "('a, 'w) action \<Rightarrow> bool" where
  "stops_on_return m \<longleftrightarrow>
     (\<forall>s r s'. m s = (r, s') \<longrightarrow>
        (case r of Inl e \<Rightarrow> sessions s' = sessions s | Inr a \<Rightarrow> sessions s' = []))"

section \<open>A small cluster to run the harness on\<close>

text \<open>
  A collaborator for the concrete runs below. Its state is the number of clock readings
  so far; the clock shows the square of that number. The file has \<open>file_len\<close> bytes and
  four rows, one of them without a summary. Fitting fails when the clock has been read
  \<open>fail_at\<close> times: a repetition reads the clock twice before it fits, and five
  times in all. The accuracy it reports is \<open>score\<close> of the number of clock readings.
\<close>

definition sample_rows :: dataframe where
  "sample_rows =
     [\<lparr>subreddit = Some ''math'', summary = Some ''s1'', content = Some ''c1''\<rparr>,
      \<lparr>subreddit = Some ''math'', summary = Some ''s2'', content = Some ''c2''\<rparr>,
      \<lparr>subreddit = Some ''news'', summary = None, content = Some ''c3''\<rparr>,
      \<lparr>subreddit = Some ''news'', summary = Some ''s4'', content = Some ''c4''\<rparr>]"

definition scoring_engine :: "int \<Rightarrow> nat \<Rightarrow> (nat \<Rightarrow> real) \<Rightarrow> (nat, nat) engine" where
  "scoring_engine file_len fail_at score =
     \<lparr>time_time = (\<lambda>w. (real (w * w), Suc w)),
      launch_session = (\<lambda>options w. (None, w)),
      get_len = (\<lambda>hdfs_path file_path w. (Inr file_len, w)),
      read_json = (\<lambda>path w. (Inr sample_rows, w)),
      order_by_count_desc = sort_key (\<lambda>c. - int (snd c)),
      seeded_split = (\<lambda>weights seed df. Inr [take (length df - 1) df, drop (length df - 1) df]),
      random_seed = (\<lambda>w. (int w, w)),
      pipeline_fit = (\<lambda>train_data w.
        if w = fail_at then (Inl (SparkError ''executor lost''), w) else (Inr (length train_data), w)),
      accuracy_of = (\<lambda>model test_data w. (Inr (score w), w))\<rparr>"

text \<open>The same with an accuracy of one half in every repetition.\<close>

definition sample_engine :: "int \<Rightarrow> nat \<Rightarrow> (nat, nat) engine" where
  "sample_engine file_len fail_at = scoring_engine file_len fail_at (\<lambda>w. 1 / 2)"

text \<open>
  Accuracies that differ from one repetition to the next: the doubles that Python writes
  \<^verbatim>\<open>0.1\<close>, \<^verbatim>\<open>0.2\<close> and \<^verbatim>\<open>0.3\<close>, in the first, second and later repetitions.
\<close>

definition tenths :: "nat \<Rightarrow> real" where
  "tenths w =
     (if w = 3 then 3602879701896397 / 2 ^ 55
      else if w = 8 then 3602879701896397 / 2 ^ 54
      else 5404319552844595 / 2 ^ 54)"

definition fresh_process :: "nat process" where
  "fresh_process = \<lparr>cluster = 0, sessions = [], peak_sessions = 0, stdout = []\<rparr>"

text \<open>The rows of the file that have all three fields.\<close>

definition sample_filtered :: dataframe where
  "sample_filtered =
     [\<lparr>subreddit = Some ''math'', summary = Some ''s1'', content = Some ''c1''\<rparr>,
      \<lparr>subreddit = Some ''math'', summary = Some ''s2'', content = Some ''c2''\<rparr>,
      \<lparr>subreddit = Some ''news'', summary = Some ''s4'', content = Some ''c4''\<rparr>]"

text \<open>
  States of the process on the way: after one, two and three repetitions that returned,
  after a first repetition in which fitting failed, and after a second one in which it
  failed.
\<close>

definition first_run_done :: "nat process" where
  "first_run_done =
     \<lparr>cluster = 5, sessions = [], peak_sessions = 1, stdout = [''File /data/a.json, run 0'']\<rparr>"

definition second_run_done :: "nat process" where
  "second_run_done =
     \<lparr>cluster = 10, sessions = [], peak_sessions = 1,
      stdout = [''File /data/a.json, run 0'', ''File /data/a.json, run 1'']\<rparr>"

definition third_run_done :: "nat process" where
  "third_run_done =
     \<lparr>cluster = 15, sessions = [], peak_sessions = 1,
      stdout = [''File /data/a.json, run 0'', ''File /data/a.json, run 1'',
                ''File /data/a.json, run 2'']\<rparr>"

definition crashed_at_once :: "nat process" where
  "crashed_at_once =
     \<lparr>cluster = 2, sessions = [session_options 2 ''2g''], peak_sessions = 1,
      stdout = [''File /data/a.json, run 0'']\<rparr>"

definition crashed_process :: "nat process" where
  "crashed_process =
     \<lparr>cluster = 7, sessions = [session_options 2 ''2g''], peak_sessions = 1,
      stdout = [''File /data/a.json, run 0'', ''File /data/a.json, run 1'']\<rparr>"

section \<open>Lemmas\<close>

subsection \<open>Rounding to a double, and the sizing\<close>

lemma bit_length_upper: "n < 2 ^ bit_length n"
proof (induction n rule: bit_length.induct)
  case (1 n)
  show ?case
  proof (cases "n = 0")
    case True
    then show ?thesis by (simp add: bit_length.simps)
  next
    case False
    with 1 have "n div 2 < 2 ^ bit_length (n div 2)" by simp
    then have "n < 2 * 2 ^ bit_length (n div 2)" by linarith
    with False show ?thesis by (simp add: bit_length.simps [of n])
  qed
qed

lemma bit_length_lower: "0 < n \<Longrightarrow> 2 ^ (bit_length n - 1) \<le> n"
proof (induction n rule: bit_length.induct)
  case (1 n)
  show ?case
  proof (cases "n div 2 = 0")
    case True
    with "1.prems" have "n = 1" by linarith
    then show ?thesis by (simp add: bit_length.simps)
  next
    case False
    with 1 have "2 ^ (bit_length (n div 2) - 1) \<le> n div 2" by simp
    moreover from False have "0 < bit_length (n div 2)"
      by (simp add: bit_length.simps [of "n div 2"])
    ultimately have "2 ^ bit_length (n div 2) \<le> 2 * (n div 2)"
      by (cases "bit_length (n div 2)") simp_all
    then have "2 ^ bit_length (n div 2) \<le> n" by linarith
    with "1.prems" show ?thesis by (simp add: bit_length.simps [of n])
  qed
qed

lemma bit_length_le: "n < 2 ^ k \<Longrightarrow> bit_length n \<le> k"
proof (cases "n = 0")
  case True
  then show ?thesis by (simp add: bit_length.simps)
next
  case False
  assume lt: "n < 2 ^ k"
  show ?thesis
  proof (rule ccontr)
    assume "\<not> bit_length n \<le> k"
    then have k: "k \<le> bit_length n - 1" by simp
    from False have "2 ^ (bit_length n - 1) \<le> n" by (intro bit_length_lower) simp
    moreover have "(2::nat) ^ k \<le> 2 ^ (bit_length n - 1)" using k by (simp add: power_increasing)
    ultimately show False using lt by linarith
  qed
qed

lemma bit_length_mono: "m \<le> n \<Longrightarrow> bit_length m \<le> bit_length n"
  using bit_length_upper [of n] by (intro bit_length_le) linarith

lemma round_half_even_cases:
  "round_half_even e m = m div 2 ^ e * 2 ^ e \<or> round_half_even e m = (m div 2 ^ e + 1) * 2 ^ e"
  by (simp add: round_half_even_def Let_def)

lemma round_half_even_le:
  assumes "m \<le> c * 2 ^ e"
  shows "round_half_even e m \<le> c * 2 ^ e"
proof (cases "m = c * 2 ^ e")
  case True
  then show ?thesis by (simp add: round_half_even_def)
next
  case False
  with assms have "m < c * 2 ^ e" by simp
  then have "m div 2 ^ e < c" by (simp add: div_less_iff_less_mult)
  then have "m div 2 ^ e + 1 \<le> c" by simp
  then have "(m div 2 ^ e + 1) * 2 ^ e \<le> c * 2 ^ e" by (rule mult_le_mono1)
  moreover have "m div 2 ^ e * 2 ^ e \<le> (m div 2 ^ e + 1) * 2 ^ e" by simp
  ultimately show ?thesis using round_half_even_cases [of e m] by linarith
qed

lemma round_half_even_ge:
  assumes "c * 2 ^ e \<le> m"
  shows "c * 2 ^ e \<le> round_half_even e m"
proof -
  from assms have "c \<le> m div 2 ^ e" by (simp add: less_eq_div_iff_mult_less_eq)
  then have "c * 2 ^ e \<le> m div 2 ^ e * 2 ^ e" by (rule mult_le_mono1)
  moreover have "m div 2 ^ e * 2 ^ e \<le> (m div 2 ^ e + 1) * 2 ^ e" by simp
  ultimately show ?thesis using round_half_even_cases [of e m] by linarith
qed

lemma round_half_even_mono:
  assumes "a \<le> b"
  shows "round_half_even e a \<le> round_half_even e b"
proof (cases "a div 2 ^ e = b div 2 ^ e")
  case True
  have "a = a div 2 ^ e * 2 ^ e + a mod 2 ^ e"
    by (rule div_mult_mod_eq [symmetric])
  moreover have "b = b div 2 ^ e * 2 ^ e + b mod 2 ^ e"
    by (rule div_mult_mod_eq [symmetric])
  ultimately have "a mod 2 ^ e \<le> b mod 2 ^ e" using True assms
    by (metis add_le_cancel_left)
  with True show ?thesis by (auto simp add: round_half_even_def Let_def)
next
  case False
  with assms have "a div 2 ^ e < b div 2 ^ e"
    by (meson div_le_mono le_neq_implies_less)
  then have "a div 2 ^ e + 1 \<le> b div 2 ^ e" by simp
  then have *: "(a div 2 ^ e + 1) * 2 ^ e \<le> b div 2 ^ e * 2 ^ e" by (rule mult_le_mono1)
  have "a div 2 ^ e * 2 ^ e \<le> (a div 2 ^ e + 1) * 2 ^ e" by simp
  then have "round_half_even e a \<le> (a div 2 ^ e + 1) * 2 ^ e"
    using round_half_even_cases [of e a] by linarith
  also note *
  also have "b div 2 ^ e * 2 ^ e \<le> round_half_even e b"
    by (rule round_half_even_ge) simp
  finally show ?thesis .
qed

lemma float_of_nat_exact: "m < 2 ^ 53 \<Longrightarrow> float_of_nat m = m"
  using bit_length_le [of m 53] by (simp add: float_of_nat_def round_half_even_def)

lemma float_of_nat_le_power:
  assumes "m \<le> 2 ^ k"
  shows "float_of_nat m \<le> 2 ^ k"
proof -
  have "(0::nat) < 2 ^ k" by simp
  with assms have "m < 2 ^ Suc k" unfolding power_Suc by linarith
  then have "bit_length m \<le> Suc k" by (rule bit_length_le)
  then have e: "bit_length m - 53 \<le> k" by simp
  have "round_half_even (bit_length m - 53) m \<le> 2 ^ (k - (bit_length m - 53)) * 2 ^ (bit_length m - 53)"
    using assms e by (intro round_half_even_le) (simp flip: power_add)
  with e show ?thesis by (simp add: float_of_nat_def flip: power_add)
qed

lemma float_of_nat_mono:
  assumes "a \<le> b"
  shows "float_of_nat a \<le> float_of_nat b"
proof (cases "bit_length a - 53 = bit_length b - 53")
  case True
  with assms show ?thesis by (simp add: float_of_nat_def round_half_even_mono)
next
  case False
  with bit_length_mono [OF assms] have lt: "bit_length a < bit_length b" "53 < bit_length b"
    by linarith+
  define k where "k = bit_length b - 1"
  have ka: "bit_length a \<le> k" and kb: "bit_length b - 53 \<le> k" and k53: "53 \<le> k"
    using lt by (simp_all add: k_def)
  have "a < 2 ^ bit_length a" by (rule bit_length_upper)
  also have "\<dots> \<le> 2 ^ k" using ka by (simp add: power_increasing)
  finally have "a \<le> 2 ^ k" by simp
  then have "float_of_nat a \<le> 2 ^ k" by (rule float_of_nat_le_power)
  moreover have "0 < b" using lt by (cases "b = 0") (simp_all add: bit_length.simps)
  then have "2 ^ k \<le> b" unfolding k_def by (rule bit_length_lower)
  then have "2 ^ (k - (bit_length b - 53)) * 2 ^ (bit_length b - 53) \<le> round_half_even (bit_length b - 53) b"
    using kb by (intro round_half_even_ge) (simp flip: power_add)
  with kb have "2 ^ k \<le> float_of_nat b" by (simp add: float_of_nat_def flip: power_add)
  ultimately show ?thesis by linarith
qed

lemma py_int_nonneg: "0 \<le> x \<Longrightarrow> py_int x = \<lfloor>x\<rfloor>"
  by (simp add: py_int_def)

lemma bytes_to_gb_nonneg:
  assumes "0 \<le> n" and "bytes_to_gb n = Inr gb"
  shows "gb = real (float_of_nat (nat n)) / (1024 * 1024 * 1024)"
proof (cases "n = 0")
  case True
  with assms show ?thesis
    by (simp add: bytes_to_gb_def float_of_nat_def round_half_even_def bit_length.simps Let_def split: if_splits)
next
  case False
  with assms have "sgn n = 1" by simp
  with assms show ?thesis
    by (simp add: bytes_to_gb_def Let_def split: if_splits)
qed

lemma next_even_mono: "j \<le> k \<Longrightarrow> next_even j \<le> next_even k"
  unfolding next_even_def by presburger

lemma next_even_even: "even (next_even k)" and next_even_ge: "k \<le> next_even k"
  unfolding next_even_def by presburger+

lemma configure_spark_Inr:
  assumes "configure_spark gb = Inr (c, m)"
  shows "c = next_even (py_int (gb * 2) + 2)" and "m = py_str (min c 4) @ ''g''"
  using assms by (auto simp add: configure_spark_def next_even_def Let_def split: if_splits)

lemma size_estimator_Inr:
  assumes "size_estimator n = Inr (c, m)"
  obtains gb where "bytes_to_gb n = Inr gb" and "configure_spark gb = Inr (c, m)"
  using assms by (auto simp add: size_estimator_def split: sum.splits)

lemma size_estimator_cores:
  assumes "0 \<le> n" and "size_estimator n = Inr (c, m)"
  shows "c = next_even (\<lfloor>real (float_of_nat (nat n)) / (1024 * 1024 * 1024) * 2\<rfloor> + 2)"
proof -
  from assms(2) obtain gb where gb: "bytes_to_gb n = Inr gb" and cs: "configure_spark gb = Inr (c, m)"
    by (rule size_estimator_Inr)
  have gb_eq: "gb = real (float_of_nat (nat n)) / (1024 * 1024 * 1024)"
    using assms(1) gb by (rule bytes_to_gb_nonneg)
  then have "0 \<le> gb * 2" by simp
  then have "py_int (gb * 2) = \<lfloor>gb * 2\<rfloor>" by (rule py_int_nonneg)
  then have "c = next_even (\<lfloor>gb * 2\<rfloor> + 2)" using configure_spark_Inr(1) [OF cs] by (simp only:)
  then show ?thesis unfolding gb_eq .
qed

lemma scaled_size_bound:
  fixes x :: real
  assumes "\<bar>x\<bar> \<le> 2 ^ 63"
  shows "\<not> float_overflow (x / (1024 * 1024 * 1024))" and "\<not> float_overflow (x / (1024 * 1024 * 1024) * 2)"
proof -
  have "\<bar>x / (1024 * 1024 * 1024) * 2\<bar> = \<bar>x\<bar> / 536870912" by simp
  also have "\<dots> \<le> 2 ^ 63 / 536870912" using assms by (intro divide_right_mono) simp_all
  also have "\<dots> < 2 ^ 1024" by simp
  finally show "\<not> float_overflow (x / (1024 * 1024 * 1024) * 2)" by (simp add: float_overflow_def)
  have "\<bar>x / (1024 * 1024 * 1024)\<bar> = \<bar>x\<bar> / 1073741824" by simp
  also have "\<dots> \<le> 2 ^ 63 / 1073741824" using assms by (intro divide_right_mono) simp_all
  also have "\<dots> < 2 ^ 1024" by simp
  finally show "\<not> float_overflow (x / (1024 * 1024 * 1024))" by (simp add: float_overflow_def)
qed

lemma size_estimator_succeeds:
  assumes "\<bar>n\<bar> < 2 ^ 63"
  shows "\<exists>p. size_estimator n = Inr p"
proof -
  define x where "x = real_of_int (sgn n * int (float_of_nat (nat \<bar>n\<bar>)))"
  from assms have "nat \<bar>n\<bar> \<le> 2 ^ 63" by (simp add: nat_le_iff)
  then have le: "float_of_nat (nat \<bar>n\<bar>) \<le> 2 ^ 63" by (rule float_of_nat_le_power)
  then have "real (float_of_nat (nat \<bar>n\<bar>)) \<le> real (2 ^ 63)" by (simp only: of_nat_le_iff)
  then have "real (float_of_nat (nat \<bar>n\<bar>)) \<le> 2 ^ 63" by simp
  moreover have "\<bar>x\<bar> \<le> real (float_of_nat (nat \<bar>n\<bar>))"
    unfolding x_def by (cases "0 < n"; cases "n = 0") (simp_all add: abs_mult)
  ultimately have "\<bar>x\<bar> \<le> 2 ^ 63"
    by linarith
  then have "\<not> float_overflow (x / (1024 * 1024 * 1024))"
    and "\<not> float_overflow (x / (1024 * 1024 * 1024) * real_of_int 2)"
    using scaled_size_bound [of x] by simp_all
  then show ?thesis
    unfolding size_estimator_def bytes_to_gb_def configure_spark_def Let_def x_def by simp
qed


lemma float_of_nat_0: "float_of_nat 0 = 0"
  by (simp add: float_of_nat_def round_half_even_def)

lemma abs_signed_magnitude: "\<bar>real_of_int (sgn n * int (float_of_nat (nat \<bar>n\<bar>)))\<bar> = real (float_of_nat (nat \<bar>n\<bar>))"
  by (cases "0 < n"; cases "n = 0") (simp_all add: abs_mult float_of_nat_0)

lemma float_overflow_gb:
  "float_overflow (x / (1024 * 1024 * 1024)) \<longleftrightarrow> 2 ^ 1054 \<le> \<bar>x\<bar>"
proof -
  have "float_overflow (x / (1024 * 1024 * 1024)) \<longleftrightarrow> 2 ^ 1024 \<le> \<bar>x\<bar> / 2 ^ 30"
    by (simp add: float_overflow_def)
  also have "\<dots> \<longleftrightarrow> 2 ^ 1024 * 2 ^ 30 \<le> \<bar>x\<bar>"
    by (rule pos_le_divide_eq) simp
  also have "(2::real) ^ 1024 * 2 ^ 30 = 2 ^ 1054" by (simp flip: power_add)
  finally show ?thesis .
qed

lemma float_overflow_scaled:
  "float_overflow (x / (1024 * 1024 * 1024) * 2) \<longleftrightarrow> 2 ^ 1053 \<le> \<bar>x\<bar>"
proof -
  have "float_overflow (x / (1024 * 1024 * 1024) * 2) \<longleftrightarrow> 2 ^ 1024 \<le> \<bar>x\<bar> / 2 ^ 29"
    by (simp add: float_overflow_def)
  also have "\<dots> \<longleftrightarrow> 2 ^ 1024 * 2 ^ 29 \<le> \<bar>x\<bar>"
    by (rule pos_le_divide_eq) simp
  also have "(2::real) ^ 1024 * 2 ^ 29 = 2 ^ 1053" by (simp flip: power_add)
  finally show ?thesis .
qed

lemma real_power_le_iff: "(2::real) ^ k \<le> real m \<longleftrightarrow> 2 ^ k \<le> m"
proof -
  have "(2::real) ^ k = real (2 ^ k)" by simp
  then show ?thesis by (simp only: of_nat_le_iff)
qed

lemma size_estimator_raises_iff:
  "(\<exists>e. size_estimator n = Inl e) \<longleftrightarrow> 2 ^ 1053 \<le> float_of_nat (nat \<bar>n\<bar>)"
proof -
  define x where "x = real_of_int (sgn n * int (float_of_nat (nat \<bar>n\<bar>)))"
  have ax: "\<bar>x\<bar> = real (float_of_nat (nat \<bar>n\<bar>))" unfolding x_def by (rule abs_signed_magnitude)
  have "(\<exists>e. size_estimator n = Inl e)
        \<longleftrightarrow> float_overflow (x / (1024 * 1024 * 1024)) \<or> float_overflow (x / (1024 * 1024 * 1024) * 2)"
    unfolding size_estimator_def bytes_to_gb_def configure_spark_def Let_def x_def [symmetric]
    by simp
  also have "\<dots> \<longleftrightarrow> 2 ^ 1054 \<le> float_of_nat (nat \<bar>n\<bar>) \<or> 2 ^ 1053 \<le> float_of_nat (nat \<bar>n\<bar>)"
    unfolding float_overflow_gb float_overflow_scaled ax real_power_le_iff ..
  also have "\<dots> \<longleftrightarrow> 2 ^ 1053 \<le> float_of_nat (nat \<bar>n\<bar>)"
  proof -
    have "(2::nat) ^ 1053 \<le> 2 ^ 1054" by (rule power_increasing) simp_all
    then show ?thesis by linarith
  qed
  finally show ?thesis .
qed

subsection \<open>The filter\<close>

lemma not_null_rows_complete:
  "r \<in> set (not_null_rows df) \<Longrightarrow> subreddit r \<noteq> None \<and> summary r \<noteq> None \<and> content r \<noteq> None"
  by (simp add: not_null_rows_def)

lemma filter_data_subset: "set (filter_data ob df) \<subseteq> set (not_null_rows df)"
  by (auto simp add: filter_data_def Let_def)

lemma filter_data_keys:
  "subreddit ` set (filter_data ob df) \<subseteq> set (map fst (take 25 (ob (subreddit_counts (not_null_rows df)))))"
  by (auto simp add: filter_data_def Let_def)

lemma card_set_take_le: "card (set (map f (take n xs))) \<le> n"
proof -
  have "card (set (map f (take n xs))) \<le> length (map f (take n xs))" by (rule card_length)
  also have "\<dots> \<le> n" by simp
  finally show ?thesis .
qed

lemma filter_data_at_most_25: "card (subreddit ` set (filter_data ob df)) \<le> 25"
proof -
  have "card (subreddit ` set (filter_data ob df))
        \<le> card (set (map fst (take 25 (ob (subreddit_counts (not_null_rows df))))))"
    by (intro card_mono filter_data_keys) simp
  also have "\<dots> \<le> 25" by (rule card_set_take_le)
  finally show ?thesis .
qed

lemma group_count_keys: "set (map fst (group_count ks)) = set ks"
  by (simp add: group_count_def comp_def)

lemma group_count_length: "length (group_count ks) = card (set ks)"
  by (simp add: group_count_def length_remdups_card_conv)

lemma filter_data_keeps_all:
  assumes perm: "mset (ob (subreddit_counts (not_null_rows df))) = mset (subreddit_counts (not_null_rows df))"
    and few: "card (subreddit ` set (not_null_rows df)) \<le> 25"
  shows "filter_data ob df = not_null_rows df"
proof -
  let ?cs = "subreddit_counts (not_null_rows df)"
  have "length (ob ?cs) = length ?cs" using perm by (rule mset_eq_length)
  also have "\<dots> = card (subreddit ` set (not_null_rows df))"
    by (simp add: subreddit_counts_def group_count_length)
  finally have "length (ob ?cs) \<le> 25" using few by simp
  then have "take 25 (ob ?cs) = ob ?cs" by simp
  moreover have "set (ob ?cs) = set ?cs" using perm by (rule mset_eq_setD)
  ultimately have "set (map fst (take 25 (ob ?cs))) = subreddit ` set (not_null_rows df)"
    using group_count_keys [of "map subreddit (not_null_rows df)"]
    by (simp add: subreddit_counts_def)
  then show ?thesis by (simp add: filter_data_def Let_def)
qed

lemma filter_data_empty: "not_null_rows df = [] \<Longrightarrow> filter_data ob df = []"
  by (simp add: filter_data_def Let_def)


subsection \<open>Actions and the bound on sessions\<close>

lemma bind_action_Inr:
  "bind_action m f s = (Inr b, t) \<longleftrightarrow> (\<exists>a s'. m s = (Inr a, s') \<and> f a s' = (Inr b, t))"
  by (auto simp add: bind_action_def split: prod.splits sum.splits)

lemma keeps_sessions_return [intro!]: "keeps_sessions (return_action a)"
  and keeps_sessions_raise [intro!]: "keeps_sessions (raise e)"
  and keeps_sessions_lift_result [intro!]: "keeps_sessions (lift_result r)"
  and keeps_sessions_external [intro!]: "keeps_sessions (external call)"
  and keeps_sessions_print_line [intro!]: "keeps_sessions (print_line l)"
  by (auto simp add: keeps_sessions_def return_action_def raise_def lift_result_def external_def
      print_line_def split: prod.splits)

lemma keeps_sessions_clock [intro!]: "keeps_sessions (clock eng)"
  unfolding clock_def by (rule keeps_sessions_external)

lemma bind_action_cases:
  assumes "bind_action m f s = (r, t)"
  obtains (raised) e where "m s = (Inl e, t)" and "r = Inl e"
    | (returned) a s' where "m s = (Inr a, s')" and "f a s' = (r, t)"
  using assms by (auto simp add: bind_action_def split: prod.splits sum.splits)

lemma keeps_sessions_bind [intro!]:
  assumes "keeps_sessions m" and "\<And>a. keeps_sessions (f a)"
  shows "keeps_sessions (bind_action m f)"
  unfolding keeps_sessions_def
proof (intro allI impI)
  fix s r t
  assume "bind_action m f s = (r, t)"
  then show "sessions t = sessions s \<and> peak_sessions t = peak_sessions s"
  proof (cases rule: bind_action_cases)
    case (raised e)
    with assms(1) show ?thesis unfolding keeps_sessions_def by blast
  next
    case (returned a s')
    from assms(1) returned(1) have "sessions s' = sessions s \<and> peak_sessions s' = peak_sessions s"
      unfolding keeps_sessions_def by blast
    moreover from assms(2) [of a] returned(2)
    have "sessions t = sessions s' \<and> peak_sessions t = peak_sessions s'"
      unfolding keeps_sessions_def by blast
    ultimately show ?thesis by simp
  qed
qed

lemma keeps_sessions_case_prod [intro!]:
  "(\<And>a b. keeps_sessions (f a b)) \<Longrightarrow> keeps_sessions (case p of (a, b) \<Rightarrow> f a b)"
  by (cases p) simp

lemma keeps_sessions_load_data [intro!]: "keeps_sessions (load_data eng hdfs_path file_path)"
  and keeps_sessions_random_forest [intro!]: "keeps_sessions (random_forest eng train_data)"
  and keeps_sessions_model_eval [intro!]: "keeps_sessions (model_eval eng model test_data)"
  unfolding load_data_def random_forest_def model_eval_def by (rule keeps_sessions_external)+

lemma split_data_state: "split_data eng df seed test_fraction s = (r, s') \<Longrightarrow> s' = s"
  by (auto simp add: split_data_def randomSplit_def bind_action_def lift_result_def
      return_action_def raise_def split: sum.splits list.splits)

lemma keeps_sessions_split_data [intro!]: "keeps_sessions (split_data eng df seed test_fraction)"
  unfolding keeps_sessions_def using split_data_state by blast

lemma keeps_sessions_keeps_bound: "keeps_sessions m \<Longrightarrow> keeps_bound m"
  by (simp add: keeps_sessions_def keeps_bound_def session_bound_def)

lemma keeps_bound_bind [intro!]:
  assumes "keeps_bound m" and "\<And>a. keeps_bound (f a)"
  shows "keeps_bound (bind_action m f)"
  unfolding keeps_bound_def
proof (intro allI impI)
  fix s r t
  assume b: "session_bound s" and "bind_action m f s = (r, t)"
  from this(2) show "session_bound t"
  proof (cases rule: bind_action_cases)
    case (raised e)
    with assms(1) b show ?thesis unfolding keeps_bound_def by blast
  next
    case (returned a s')
    from assms(1) b returned(1) have "session_bound s'" unfolding keeps_bound_def by blast
    with assms(2) [of a] returned(2) show ?thesis unfolding keeps_bound_def by blast
  qed
qed

lemma keeps_bound_case_prod [intro!]:
  "(\<And>a b. keeps_bound (f a b)) \<Longrightarrow> keeps_bound (case p of (a, b) \<Rightarrow> f a b)"
  by (cases p) simp

lemma keeps_bound_getOrCreate: "keeps_bound (getOrCreate eng options)"
  by (auto simp add: keeps_bound_def getOrCreate_def session_bound_def
      split: list.splits prod.splits option.splits)

lemma keeps_bound_stop: "keeps_bound stop"
  by (auto simp add: keeps_bound_def stop_def session_bound_def)

lemmas keeps_bound_basic =
  keeps_sessions_return [THEN keeps_sessions_keeps_bound]
  keeps_sessions_raise [THEN keeps_sessions_keeps_bound]
  keeps_sessions_lift_result [THEN keeps_sessions_keeps_bound]
  keeps_sessions_external [THEN keeps_sessions_keeps_bound]
  keeps_sessions_print_line [THEN keeps_sessions_keeps_bound]
  keeps_sessions_clock [THEN keeps_sessions_keeps_bound]
  keeps_sessions_load_data [THEN keeps_sessions_keeps_bound]
  keeps_sessions_random_forest [THEN keeps_sessions_keeps_bound]
  keeps_sessions_model_eval [THEN keeps_sessions_keeps_bound]
  keeps_sessions_split_data [THEN keeps_sessions_keeps_bound]
  keeps_bound_getOrCreate keeps_bound_stop

lemma keeps_bound_build_spark_session: "keeps_bound (build_spark_session eng hdfs_path file_path)"
  unfolding build_spark_session_def
  by (intro keeps_bound_bind keeps_bound_case_prod keeps_bound_basic)

lemma keeps_bound_run_once: "keeps_bound (run_once eng hdfs_path file_path i)"
  unfolding run_once_def
  by (intro keeps_bound_bind keeps_bound_case_prod keeps_bound_basic keeps_bound_build_spark_session)

lemma keeps_bound_loop_body: "keeps_bound (loop_body eng hdfs_path file_path i vars)"
  unfolding loop_body_def
  by (intro keeps_bound_bind keeps_bound_basic keeps_bound_run_once)

lemma keeps_bound_for_range:
  assumes "\<And>i vars. keeps_bound (body i vars)"
  shows "keeps_bound (for_range body i k vars)"
proof (induction k arbitrary: i vars)
  case 0
  show ?case by (simp add: keeps_bound_def)
next
  case (Suc k)
  show ?case
    unfolding keeps_bound_def
  proof (intro allI impI)
    fix s r s'
    assume b: "session_bound s" and run: "for_range body i (Suc k) vars s = (r, s')"
    obtain r1 s1 where step: "body i vars s = (r1, s1)" by (cases "body i vars s")
    with assms b have b1: "session_bound s1" unfolding keeps_bound_def by blast
    show "session_bound s'"
    proof (cases r1)
      case (Inl e)
      with run step b1 show ?thesis by simp
    next
      case (Inr vars')
      with run step have "for_range body (Suc i) k vars' s1 = (r, s')" by simp
      with Suc b1 show ?thesis unfolding keeps_bound_def by blast
    qed
  qed
qed

lemma keeps_bound_evaluate_performance:
  "keeps_bound (evaluate_performance eng hdfs_path file_path n)"
  unfolding evaluate_performance_def
  by (intro keeps_bound_bind keeps_bound_for_range keeps_bound_loop_body)
     (auto split: option.splits intro!: keeps_bound_bind keeps_bound_basic)

lemma session_bound_print_crash: "session_bound (print_crash file e s) = session_bound s"
  by (simp add: print_crash_def session_bound_def)

lemma benchmark_files_bound:
  "session_bound s \<Longrightarrow> session_bound (snd (benchmark_files eng hdfs_path file_path n files results s))"
proof (induction files arbitrary: results s)
  case Nil
  then show ?case by simp
next
  case (Cons f files)
  obtain r s1 where ev: "evaluate_performance eng hdfs_path (file_path @ f) n s = (r, s1)"
    by (cases "evaluate_performance eng hdfs_path (file_path @ f) n s")
  with Cons.prems keeps_bound_evaluate_performance [of eng hdfs_path "file_path @ f" n]
  have "session_bound s1" unfolding keeps_bound_def by blast
  with ev Cons.IH show ?case
    by (cases r) (simp_all add: session_bound_print_crash)
qed


subsection \<open>Teardown\<close>

lemma stops_on_returnD:
  "stops_on_return m \<Longrightarrow> m s = (r, s') \<Longrightarrow>
     (case r of Inl e \<Rightarrow> sessions s' = sessions s | Inr a \<Rightarrow> sessions s' = [])"
  unfolding stops_on_return_def by blast

lemma stops_on_return_bind:
  assumes "keeps_sessions m" and "\<And>a. stops_on_return (f a)"
  shows "stops_on_return (bind_action m f)"
  unfolding stops_on_return_def
proof (intro allI impI)
  fix s r t
  assume "bind_action m f s = (r, t)"
  then show "case r of Inl e \<Rightarrow> sessions t = sessions s | Inr a \<Rightarrow> sessions t = []"
  proof (cases rule: bind_action_cases)
    case (raised e)
    with assms(1) show ?thesis unfolding keeps_sessions_def by auto
  next
    case (returned a s')
    from assms(1) returned(1) have "sessions s' = sessions s" unfolding keeps_sessions_def by blast
    with stops_on_returnD [OF assms(2) returned(2)] show ?thesis by (cases r) simp_all
  qed
qed

lemma stops_on_return_case_prod:
  "(\<And>a b. stops_on_return (f a b)) \<Longrightarrow> stops_on_return (case p of (a, b) \<Rightarrow> f a b)"
  by (cases p) simp

lemma stops_on_return_stop:
  "stops_on_return (bind_action stop (\<lambda>u. bind_action (clock eng) (\<lambda>t. return_action (g t))))"
  by (auto simp add: stops_on_return_def bind_action_def stop_def clock_def external_def
      return_action_def split: prod.splits sum.splits)

lemma getOrCreate_fresh:
  assumes "getOrCreate eng options s = (Inr spark_session, s')" and "sessions s = []"
  shows "sessions s' = [spark_session]" and "spark_session = options"
  using assms by (auto simp add: getOrCreate_def split: prod.splits option.splits)

lemma stop_sessions: "stop s = (r, s') \<Longrightarrow> sessions s' = []"
  by (auto simp add: stop_def)

lemma lift_result_eq: "lift_result x s = (r, s') \<longleftrightarrow> r = x \<and> s' = s"
  by (auto simp add: lift_result_def)

lemma return_action_eq: "return_action a s = (r, s') \<longleftrightarrow> r = Inr a \<and> s' = s"
  by (auto simp add: return_action_def)

lemma build_spark_session_Inr:
  assumes "build_spark_session eng hdfs_path file_path s = (Inr (spark_session, fileSize), s')"
  shows "sessions s' = [spark_session]"
    and "\<exists>executor_cores executor_memory.
           size_estimator fileSize = Inr (executor_cores, executor_memory)
           \<and> spark_session = session_options executor_cores executor_memory"
proof -
  from assms obtain probe s1 where
    rest1: "bind_action (external (get_len eng hdfs_path file_path)) (\<lambda>fileSize.
            bind_action stop (\<lambda>_.
            bind_action (lift_result (size_estimator fileSize)) (\<lambda>(executor_cores, executor_memory).
            bind_action (getOrCreate eng (session_options executor_cores executor_memory)) (\<lambda>spark_session.
            return_action (spark_session, fileSize))))) s1 = (Inr (spark_session, fileSize), s')"
    unfolding build_spark_session_def by (cases rule: bind_action_cases) simp_all
  from rest1 obtain len s2 where
    rest2: "bind_action stop (\<lambda>_.
            bind_action (lift_result (size_estimator len)) (\<lambda>(executor_cores, executor_memory).
            bind_action (getOrCreate eng (session_options executor_cores executor_memory)) (\<lambda>spark_session.
            return_action (spark_session, len)))) s2 = (Inr (spark_session, fileSize), s')"
    by (cases rule: bind_action_cases) simp_all
  from rest2 obtain u s3 where stopped: "stop s2 = (Inr u, s3)" and
    rest3: "bind_action (lift_result (size_estimator len)) (\<lambda>(executor_cores, executor_memory).
            bind_action (getOrCreate eng (session_options executor_cores executor_memory)) (\<lambda>spark_session.
            return_action (spark_session, len))) s3 = (Inr (spark_session, fileSize), s')"
    by (cases rule: bind_action_cases) simp_all
  from stopped have none: "sessions s3 = []" by (rule stop_sessions)
  from rest3 obtain plan s4 where sized: "lift_result (size_estimator len) s3 = (Inr plan, s4)" and
    rest4: "(case plan of (executor_cores, executor_memory) \<Rightarrow>
            bind_action (getOrCreate eng (session_options executor_cores executor_memory)) (\<lambda>spark_session.
            return_action (spark_session, len))) s4 = (Inr (spark_session, fileSize), s')"
    by (cases rule: bind_action_cases) simp_all
  obtain executor_cores executor_memory where plan: "plan = (executor_cores, executor_memory)"
    by (cases plan)
  from sized have size: "size_estimator len = Inr (executor_cores, executor_memory)" and s4: "s4 = s3"
    by (simp_all add: lift_result_eq plan)
  from rest4 obtain created s5 where
    created: "getOrCreate eng (session_options executor_cores executor_memory) s3 = (Inr created, s5)"
    and ret: "return_action (created, len) s5 = (Inr (spark_session, fileSize), s')"
    unfolding plan prod.case s4 by (cases rule: bind_action_cases) simp_all
  from ret have eqs: "created = spark_session" "len = fileSize" "s5 = s'"
    by (simp_all add: return_action_eq)
  from getOrCreate_fresh [OF created none] eqs size
  show "sessions s' = [spark_session]"
    and "\<exists>executor_cores executor_memory.
           size_estimator fileSize = Inr (executor_cores, executor_memory)
           \<and> spark_session = session_options executor_cores executor_memory"
    by auto
qed

lemma print_line_Inr: "print_line l s = (r, t) \<Longrightarrow> \<exists>u. r = Inr u"
  by (auto simp add: print_line_def)

lemma clock_Inr: "clock eng s = (r, t) \<Longrightarrow> \<exists>u. r = Inr u"
  by (auto simp add: clock_def external_def split: prod.splits)

lemma run_once_sessions:
  assumes "run_once eng hdfs_path file_path i s = (r, s')"
  shows "case r of
           Inr a \<Rightarrow> sessions s' = []
         | Inl e \<Rightarrow> sessions s' \<noteq> [] \<or> (\<exists>s0. build_spark_session eng hdfs_path file_path s0 = (Inl e, s'))"
  using assms unfolding run_once_def
proof (cases rule: bind_action_cases)
  case (raised e)
  then show ?thesis by (auto dest: print_line_Inr)
next
  case (returned u s1)
  from returned(2) show ?thesis
  proof (cases rule: bind_action_cases)
    case (raised e)
    then show ?thesis by (auto dest: clock_Inr)
  next
    case (returned start_time s2)
    from returned(2) show ?thesis
    proof (cases rule: bind_action_cases)
      case (raised e)
      then show ?thesis by auto
    next
      case (returned built s3)
      obtain spark_session fileSize where built: "built = (spark_session, fileSize)"
        by (cases built)
      from returned(1) have live: "sessions s3 = [spark_session]"
        unfolding built by (rule build_spark_session_Inr(1))
      from returned(2) have "case r of Inl e \<Rightarrow> sessions s' = sessions s3 | Inr a \<Rightarrow> sessions s' = []"
        unfolding built prod.case
        by (rule stops_on_returnD [rotated])
          (intro stops_on_return_bind stops_on_return_case_prod stops_on_return_stop
            keeps_sessions_return keeps_sessions_lift_result keeps_sessions_clock
            keeps_sessions_load_data keeps_sessions_random_forest keeps_sessions_model_eval
            keeps_sessions_split_data)
      with live show ?thesis by (cases r) simp_all
    qed
  qed
qed

subsection \<open>The loop and the list of runs\<close>

lemma repetitions_length: "repetitions eng hdfs_path file_path i k s = (Inr rs, s') \<Longrightarrow> length rs = k"
  by (induction k arbitrary: i s rs) (auto split: prod.splits sum.splits)

lemma loop_body_eq:
  "loop_body eng hdfs_path file_path i vars s =
     (case run_once eng hdfs_path file_path i s of
        (Inl e, s') \<Rightarrow> (Inl e, s')
      | (Inr r, s') \<Rightarrow> (Inr (store_run i r vars), s'))"
  by (simp add: loop_body_def bind_action_def return_action_def split: prod.splits sum.splits)

lemma for_range_loop_body:
  "for_range (loop_body eng hdfs_path file_path) i k vars s =
     (case repetitions eng hdfs_path file_path i k s of
        (Inl e, s') \<Rightarrow> (Inl e, s')
      | (Inr rs, s') \<Rightarrow> (Inr (store_runs i rs vars), s'))"
  by (induction k arbitrary: i vars s) (simp_all add: loop_body_eq split: prod.splits sum.splits)

lemma take_Suc_update: "i < length xs \<Longrightarrow> take (Suc i) (xs[i := v]) = take i xs @ [v]"
  by (simp add: take_Suc_conv_app_nth)

lemma store_runs_arrays:
  assumes "i + length rs \<le> length (data_load_time vars)"
    and "i + length rs \<le> length (training_time vars)"
    and "i + length rs \<le> length (evaluation_time vars)"
    and "i + length rs \<le> length (overall_exec_time vars)"
    and "i + length rs \<le> length (model_accuracy vars)"
  shows "data_load_time (store_runs i rs vars) =
           take i (data_load_time vars) @ map run_load_time rs @ drop (i + length rs) (data_load_time vars)"
    and "training_time (store_runs i rs vars) =
           take i (training_time vars) @ map run_train_time rs @ drop (i + length rs) (training_time vars)"
    and "evaluation_time (store_runs i rs vars) =
           take i (evaluation_time vars) @ map run_eval_time rs @ drop (i + length rs) (evaluation_time vars)"
    and "overall_exec_time (store_runs i rs vars) =
           take i (overall_exec_time vars) @ map run_total_time rs @ drop (i + length rs) (overall_exec_time vars)"
    and "model_accuracy (store_runs i rs vars) =
           take i (model_accuracy vars) @ map (\<lambda>r. Finite (run_accuracy r)) rs @ drop (i + length rs) (model_accuracy vars)"
  using assms
proof (induction rs arbitrary: i vars)
  case Nil
  {
    case 1 show ?case by simp
  next
    case 2 show ?case by simp
  next
    case 3 show ?case by simp
  next
    case 4 show ?case by simp
  next
    case 5 show ?case by simp
  }
next
  case (Cons r rs)
  {
    case 1
    with Cons.IH(1) [of "Suc i" "store_run i r vars"] show ?case
      by (simp add: store_run_def take_Suc_update)
  next
    case 2
    with Cons.IH(2) [of "Suc i" "store_run i r vars"] show ?case
      by (simp add: store_run_def take_Suc_update)
  next
    case 3
    with Cons.IH(3) [of "Suc i" "store_run i r vars"] show ?case
      by (simp add: store_run_def take_Suc_update)
  next
    case 4
    with Cons.IH(4) [of "Suc i" "store_run i r vars"] show ?case
      by (simp add: store_run_def take_Suc_update)
  next
    case 5
    with Cons.IH(5) [of "Suc i" "store_run i r vars"] show ?case
      by (simp add: store_run_def take_Suc_update)
  }
qed

lemma store_runs_last_session:
  "last_session (store_runs i rs vars) =
     (if rs = [] then last_session vars
      else Some (run_fileSize (last rs), run_executor_cores (last rs),
                 run_executor_memory (last rs), run_max_cores (last rs)))"
  by (induction rs arbitrary: i vars) (simp_all add: store_run_def)

lemma initial_arrays:
  "length (data_load_time (initial_locals n)) = n"
  "length (training_time (initial_locals n)) = n"
  "length (evaluation_time (initial_locals n)) = n"
  "length (overall_exec_time (initial_locals n)) = n"
  "length (model_accuracy (initial_locals n)) = n"
  "last_session (initial_locals n) = None"
  by (simp_all add: initial_locals_def np_zeros_def)

lemma store_runs_initial:
  assumes "length rs = n"
  shows "data_load_time (store_runs 0 rs (initial_locals n)) = map run_load_time rs"
    and "training_time (store_runs 0 rs (initial_locals n)) = map run_train_time rs"
    and "evaluation_time (store_runs 0 rs (initial_locals n)) = map run_eval_time rs"
    and "overall_exec_time (store_runs 0 rs (initial_locals n)) = map run_total_time rs"
    and "model_accuracy (store_runs 0 rs (initial_locals n)) = map (\<lambda>r. Finite (run_accuracy r)) rs"
  using assms by (simp_all add: store_runs_arrays initial_arrays)

text \<open>\<^verbatim>\<open>evaluate_performance\<close> in terms of the list of runs.\<close>

lemma evaluate_performance_eq:
  "evaluate_performance eng hdfs_path file_path n s =
     (case repetitions eng hdfs_path file_path 0 n s of
        (Inl e, s') \<Rightarrow> (Inl e, s')
      | (Inr rs, s') \<Rightarrow>
          if rs = [] then
            (Inl (UnboundLocalError ''local variable 'fileSize' referenced before assignment''), s')
          else
            (case bytes_to_gb (run_fileSize (last rs)) of
               Inl e \<Rightarrow> (Inl e, s')
             | Inr gb \<Rightarrow>
                 (Inr \<lparr>File_size = gb,
                       Executor_cores = run_executor_cores (last rs),
                       Executor_memory = run_executor_memory (last rs),
                       Max_cores = run_max_cores (last rs),
                       Data_load_time = np_mean (map run_load_time rs),
                       Training_time = np_mean (map run_train_time rs),
                       Evaluation_time = np_mean (map run_eval_time rs),
                       Overall_exec_time = np_mean (map run_total_time rs),
                       Model_accuracy = np_mean (map (\<lambda>r. Finite (run_accuracy r)) rs)\<rparr>, s')))"
proof (cases "repetitions eng hdfs_path file_path 0 n s")
  case (Pair res s')
  show ?thesis
  proof (cases res)
    case (Inl e)
    with Pair show ?thesis
      by (simp add: evaluate_performance_def bind_action_def for_range_loop_body)
  next
    case (Inr rs)
    with Pair have len: "length rs = n" by (simp add: repetitions_length)
    from Pair Inr show ?thesis
      by (simp add: evaluate_performance_def bind_action_def for_range_loop_body
          store_runs_last_session store_runs_initial [OF len] initial_arrays
          raise_def lift_result_def return_action_def split: sum.splits)
  qed
qed

lemma evaluate_performance_Inr:
  assumes "evaluate_performance eng hdfs_path file_path n s = (Inr row, s')"
  obtains rs where "repetitions eng hdfs_path file_path 0 n s = (Inr rs, s')"
    and "length rs = n" and "0 < n"
    and "Data_load_time row = np_mean (map run_load_time rs)"
    and "Training_time row = np_mean (map run_train_time rs)"
    and "Evaluation_time row = np_mean (map run_eval_time rs)"
    and "Overall_exec_time row = np_mean (map run_total_time rs)"
    and "Model_accuracy row = np_mean (map (\<lambda>r. Finite (run_accuracy r)) rs)"
proof -
  from assms obtain rs where reps: "repetitions eng hdfs_path file_path 0 n s = (Inr rs, s')"
    by (auto simp add: evaluate_performance_eq split: prod.splits sum.splits if_splits)
  then have len: "length rs = n" by (rule repetitions_length)
  from assms reps have ne: "rs \<noteq> []"
    by (auto simp add: evaluate_performance_eq split: if_splits)
  with len have "0 < n" by auto
  moreover from assms reps ne obtain gb where
    "row = \<lparr>File_size = gb,
            Executor_cores = run_executor_cores (last rs),
            Executor_memory = run_executor_memory (last rs),
            Max_cores = run_max_cores (last rs),
            Data_load_time = np_mean (map run_load_time rs),
            Training_time = np_mean (map run_train_time rs),
            Evaluation_time = np_mean (map run_eval_time rs),
            Overall_exec_time = np_mean (map run_total_time rs),
            Model_accuracy = np_mean (map (\<lambda>r. Finite (run_accuracy r)) rs)\<rparr>"
    by (auto simp add: evaluate_performance_eq split: sum.splits)
  ultimately show ?thesis using reps len by (intro that) simp_all
qed


lemma external_Inr: "external call s = (Inr a, s') \<Longrightarrow> \<exists>w. fst (call w) = Inr a"
  by (auto simp add: external_def split: prod.splits intro: exI [of _ "cluster s"])

lemma split_data_Inr:
  assumes "split_data eng df seed test_fraction s = (Inr (train_data, test_data), s')"
  shows "seeded_split eng [1 - test_fraction, test_fraction] seed df = Inr [train_data, test_data]"
  using assms
  by (auto simp add: split_data_def randomSplit_def bind_action_def lift_result_def
      return_action_def raise_def split: sum.splits list.splits)

lemma run_once_Inr:
  assumes "run_once eng hdfs_path file_path i s = (Inr r, s')"
  obtains s0 s1 spark_session df train_data test_data model w1 w2 w3 where
    "build_spark_session eng hdfs_path file_path s0 = (Inr (spark_session, run_fileSize r), s1)"
    and "fst (read_json eng (hdfs_path @ file_path) w1) = Inr df"
    and "seeded_split eng [1 - 0.2, 0.2] 42 (filter_data (order_by_count_desc eng) df)
           = Inr [train_data, test_data]"
    and "fst (pipeline_fit eng train_data w2) = Inr model"
    and "fst (accuracy_of eng model test_data w3) = Inr (run_accuracy r)"
proof -
  from assms obtain s0 s1 spark_session fileSize df sa sb train_data test_data sc sd model se sf sg acc sh
    where build: "build_spark_session eng hdfs_path file_path s0 = (Inr (spark_session, fileSize), s1)"
      and load: "load_data eng hdfs_path file_path s1 = (Inr df, sa)"
      and split: "split_data eng (filter_data (order_by_count_desc eng) df) 42 0.2 sb
                    = (Inr (train_data, test_data), sc)"
      and fit: "random_forest eng train_data sd = (Inr model, se)"
      and score: "model_eval eng model test_data sf = (Inr acc, sg)"
      and r: "run_fileSize r = fileSize" "run_accuracy r = acc"
    by (auto simp add: run_once_def bind_action_Inr return_action_eq)
  from load obtain w1 where "fst (read_json eng (hdfs_path @ file_path) w1) = Inr df"
    unfolding load_data_def by (auto dest: external_Inr)
  moreover from fit obtain w2 where "fst (pipeline_fit eng train_data w2) = Inr model"
    unfolding random_forest_def by (auto dest: external_Inr)
  moreover from score obtain w3 where "fst (accuracy_of eng model test_data w3) = Inr (run_accuracy r)"
    unfolding model_eval_def r by (auto dest: external_Inr)
  moreover note split_data_Inr [OF split] build [folded r(1)]
  ultimately show ?thesis by (intro that)
qed

lemma run_once_file_size:
  assumes "run_once eng hdfs_path file_path i s = (Inr r, s')"
  shows "\<exists>gb. bytes_to_gb (run_fileSize r) = Inr gb"
proof -
  from assms obtain s0 s1 spark_session where
    "build_spark_session eng hdfs_path file_path s0 = (Inr (spark_session, run_fileSize r), s1)"
    by (rule run_once_Inr)
  then obtain executor_cores executor_memory where
    "size_estimator (run_fileSize r) = Inr (executor_cores, executor_memory)"
    using build_spark_session_Inr(2) by blast
  then show ?thesis by (auto simp add: size_estimator_def split: sum.splits)
qed

lemma repetitions_file_size:
  assumes "repetitions eng hdfs_path file_path i k s = (Inr rs, s')" and "r \<in> set rs"
  shows "\<exists>gb. bytes_to_gb (run_fileSize r) = Inr gb"
  using assms
proof (induction k arbitrary: i s rs)
  case 0
  then show ?case by simp
next
  case (Suc k)
  from Suc.prems(1) obtain r0 s0 rs0 where
    first: "run_once eng hdfs_path file_path i s = (Inr r0, s0)"
    and rest: "repetitions eng hdfs_path file_path (Suc i) k s0 = (Inr rs0, s')"
    and rs: "rs = r0 # rs0"
    by (auto split: prod.splits sum.splits)
  show ?case
  proof (cases "r = r0")
    case True
    with first show ?thesis by (simp add: run_once_file_size)
  next
    case False
    with Suc.prems(2) rs have "r \<in> set rs0" by simp
    with Suc.IH rest show ?thesis by blast
  qed
qed

lemma evaluate_performance_raises_iff:
  "(\<exists>e s'. evaluate_performance eng hdfs_path file_path n s = (Inl e, s'))
   \<longleftrightarrow> n = 0 \<or> (\<exists>e s'. repetitions eng hdfs_path file_path 0 n s = (Inl e, s'))"
proof (cases "repetitions eng hdfs_path file_path 0 n s")
  case (Pair res s1)
  show ?thesis
  proof (cases res)
    case (Inl e)
    with Pair show ?thesis by (simp add: evaluate_performance_eq)
  next
    case (Inr rs)
    with Pair have len: "length rs = n" by (simp add: repetitions_length)
    show ?thesis
    proof (cases "rs = []")
      case True
      with Pair Inr len show ?thesis by (simp add: evaluate_performance_eq)
    next
      case False
      then have "last rs \<in> set rs" by simp
      with Pair Inr obtain gb where "bytes_to_gb (run_fileSize (last rs)) = Inr gb"
        using repetitions_file_size by blast
      with Pair Inr False len show ?thesis by (auto simp add: evaluate_performance_eq)
    qed
  qed
qed

lemma repetitions_raises_iff:
  "repetitions eng hdfs_path file_path i k s = (Inl e, s')
   \<longleftrightarrow> (\<exists>j<k. \<exists>rs sj. repetitions eng hdfs_path file_path i j s = (Inr rs, sj)
                 \<and> run_once eng hdfs_path file_path (i + j) sj = (Inl e, s'))"
proof (induction k arbitrary: i s)
  case 0
  show ?case by simp
next
  case (Suc k)
  obtain res s1 where first: "run_once eng hdfs_path file_path i s = (res, s1)"
    by (cases "run_once eng hdfs_path file_path i s")
  show ?case
  proof (cases res)
    case (Inl e1)
    have "(\<exists>j<Suc k. \<exists>rs sj. repetitions eng hdfs_path file_path i j s = (Inr rs, sj)
                 \<and> run_once eng hdfs_path file_path (i + j) sj = (Inl e, s'))
          \<longleftrightarrow> e1 = e \<and> s1 = s'"
    proof
      assume "\<exists>j<Suc k. \<exists>rs sj. repetitions eng hdfs_path file_path i j s = (Inr rs, sj)
                 \<and> run_once eng hdfs_path file_path (i + j) sj = (Inl e, s')"
      then obtain j rs sj where j: "repetitions eng hdfs_path file_path i j s = (Inr rs, sj)"
        and fail: "run_once eng hdfs_path file_path (i + j) sj = (Inl e, s')" by blast
      from j first Inl have "j = 0" by (cases j) simp_all
      with j fail first Inl show "e1 = e \<and> s1 = s'" by simp
    next
      assume "e1 = e \<and> s1 = s'"
      with first Inl have "repetitions eng hdfs_path file_path i 0 s = (Inr [], s)
          \<and> run_once eng hdfs_path file_path (i + 0) s = (Inl e, s')" by simp
      then show "\<exists>j<Suc k. \<exists>rs sj. repetitions eng hdfs_path file_path i j s = (Inr rs, sj)
                 \<and> run_once eng hdfs_path file_path (i + j) sj = (Inl e, s')" by blast
    qed
    with first Inl show ?thesis by simp
  next
    case (Inr r)
    have "(\<exists>j<Suc k. \<exists>rs sj. repetitions eng hdfs_path file_path i j s = (Inr rs, sj)
                 \<and> run_once eng hdfs_path file_path (i + j) sj = (Inl e, s'))
          \<longleftrightarrow> (\<exists>j<k. \<exists>rs sj. repetitions eng hdfs_path file_path (Suc i) j s1 = (Inr rs, sj)
                 \<and> run_once eng hdfs_path file_path (Suc i + j) sj = (Inl e, s'))"
    proof
      assume "\<exists>j<Suc k. \<exists>rs sj. repetitions eng hdfs_path file_path i j s = (Inr rs, sj)
                 \<and> run_once eng hdfs_path file_path (i + j) sj = (Inl e, s')"
      then obtain j rs sj where lt: "j < Suc k"
        and j: "repetitions eng hdfs_path file_path i j s = (Inr rs, sj)"
        and fail: "run_once eng hdfs_path file_path (i + j) sj = (Inl e, s')" by blast
      from j fail first Inr have "j \<noteq> 0" by (intro notI) simp
      then obtain j' where j': "j = Suc j'" by (cases j) simp_all
      with j first Inr obtain rs' where
        "repetitions eng hdfs_path file_path (Suc i) j' s1 = (Inr rs', sj)"
        by (auto split: prod.splits sum.splits)
      with lt fail j'
      show "\<exists>j<k. \<exists>rs sj. repetitions eng hdfs_path file_path (Suc i) j s1 = (Inr rs, sj)
                 \<and> run_once eng hdfs_path file_path (Suc i + j) sj = (Inl e, s')"
        by (intro exI [of _ j']) auto
    next
      assume "\<exists>j<k. \<exists>rs sj. repetitions eng hdfs_path file_path (Suc i) j s1 = (Inr rs, sj)
                 \<and> run_once eng hdfs_path file_path (Suc i + j) sj = (Inl e, s')"
      then obtain j rs sj where lt: "j < k"
        and j: "repetitions eng hdfs_path file_path (Suc i) j s1 = (Inr rs, sj)"
        and fail: "run_once eng hdfs_path file_path (Suc i + j) sj = (Inl e, s')" by blast
      from j first Inr have "repetitions eng hdfs_path file_path i (Suc j) s = (Inr (r # rs), sj)"
        by simp
      with lt fail
      show "\<exists>j<Suc k. \<exists>rs sj. repetitions eng hdfs_path file_path i j s = (Inr rs, sj)
                 \<and> run_once eng hdfs_path file_path (i + j) sj = (Inl e, s')"
        by (intro exI [of _ "Suc j"]) auto
    qed
    moreover from first Inr
    have "repetitions eng hdfs_path file_path i (Suc k) s = (Inl e, s')
          \<longleftrightarrow> repetitions eng hdfs_path file_path (Suc i) k s1 = (Inl e, s')"
      by (auto split: prod.splits sum.splits)
    ultimately show ?thesis using Suc.IH [of "Suc i" s1] by simp
  qed
qed

text \<open>
  When \<^verbatim>\<open>evaluate_performance\<close> raises, the error and the state it leaves are those of
  the first repetition that raises.
\<close>

lemma evaluate_performance_raises_eq:
  "evaluate_performance eng hdfs_path file_path n s = (Inl e, s1)
   \<longleftrightarrow> (n = 0 \<and> e = UnboundLocalError ''local variable 'fileSize' referenced before assignment''
          \<and> s1 = s)
       \<or> (\<exists>j<n. \<exists>runs sj. repetitions eng hdfs_path file_path 0 j s = (Inr runs, sj)
                 \<and> run_once eng hdfs_path file_path j sj = (Inl e, s1))"
proof (cases "repetitions eng hdfs_path file_path 0 n s")
  case (Pair res s')
  have fails: "(\<exists>j<n. \<exists>runs sj. repetitions eng hdfs_path file_path 0 j s = (Inr runs, sj)
                 \<and> run_once eng hdfs_path file_path j sj = (Inl e, s1))
               \<longleftrightarrow> repetitions eng hdfs_path file_path 0 n s = (Inl e, s1)"
    using repetitions_raises_iff [of eng hdfs_path file_path 0 n s e s1] by simp
  show ?thesis
  proof (cases res)
    case (Inl e')
    with Pair have "n \<noteq> 0" by (intro notI) simp
    with Pair Inl show ?thesis unfolding fails by (simp add: evaluate_performance_eq)
  next
    case (Inr rs)
    with Pair have len: "length rs = n" by (simp add: repetitions_length)
    show ?thesis
    proof (cases "rs = []")
      case True
      with len have "n = 0" by simp
      with Pair Inr True show ?thesis unfolding fails
        by (auto simp add: evaluate_performance_eq)
    next
      case False
      then have "last rs \<in> set rs" by simp
      with Pair Inr obtain gb where "bytes_to_gb (run_fileSize (last rs)) = Inr gb"
        using repetitions_file_size by blast
      moreover from False len have "n \<noteq> 0" by auto
      ultimately show ?thesis using Pair Inr False unfolding fails
        by (simp add: evaluate_performance_eq)
    qed
  qed
qed

lemma benchmark_files_extends:
  "\<exists>rows. fst (benchmark_files eng hdfs_path file_path n files results s) = results @ rows"
proof (induction files arbitrary: results s)
  case Nil
  show ?case by simp
next
  case (Cons f files)
  obtain res s1 where ev: "evaluate_performance eng hdfs_path (file_path @ f) n s = (res, s1)"
    by (cases "evaluate_performance eng hdfs_path (file_path @ f) n s")
  show ?case
  proof (cases res)
    case (Inl e)
    with ev Cons.IH [of results "print_crash f e s1"] show ?thesis by simp
  next
    case (Inr row)
    from Cons.IH [of "results @ [(take (length f - 5) f, row)]" s1]
    obtain rows where "fst (benchmark_files eng hdfs_path file_path n files
        (results @ [(take (length f - 5) f, row)]) s1) = (results @ [(take (length f - 5) f, row)]) @ rows"
      by blast
    with ev Inr show ?thesis by simp
  qed
qed

lemma benchmark_one_file_no_row:
  "fst (benchmark_files eng hdfs_path file_path n [f] results s) = results
   \<longleftrightarrow> (\<exists>e s'. evaluate_performance eng hdfs_path (file_path @ f) n s = (Inl e, s'))"
  by (cases "evaluate_performance eng hdfs_path (file_path @ f) n s")
     (auto split: sum.splits)


subsection \<open>Runs on the small cluster\<close>

lemmas py_defs = size_estimator_def bytes_to_gb_def float_overflow_def float_of_nat_def
  round_half_even_def configure_spark_def py_int_def py_str_def str_nat.simps bit_length.simps Let_def

lemmas fl_defs = fl_def round_to_double_def round_half_even_real_def float_exponent_def pow2_def
  float_overflow_def bit_length.simps Let_def

lemma scoring_engine_sel:
  "time_time (scoring_engine len k score) = (\<lambda>w. (real (w * w), Suc w))"
  "launch_session (scoring_engine len k score) = (\<lambda>options w. (None, w))"
  "get_len (scoring_engine len k score) = (\<lambda>hdfs_path file_path w. (Inr len, w))"
  "read_json (scoring_engine len k score) = (\<lambda>path w. (Inr sample_rows, w))"
  "order_by_count_desc (scoring_engine len k score) = sort_key (\<lambda>c. - int (snd c))"
  "seeded_split (scoring_engine len k score)
     = (\<lambda>weights seed df. Inr [take (length df - 1) df, drop (length df - 1) df])"
  "pipeline_fit (scoring_engine len k score) = (\<lambda>train_data w.
        if w = k then (Inl (SparkError ''executor lost''), w) else (Inr (length train_data), w))"
  "accuracy_of (scoring_engine len k score) = (\<lambda>model test_data w. (Inr (score w), w))"
  by (simp_all add: scoring_engine_def)

lemmas sample_engine_sel = scoring_engine_sel [of _ _ "\<lambda>w. 1 / 2", folded sample_engine_def]

lemma sample_not_null: "not_null_rows sample_rows = sample_filtered"
  by (simp add: not_null_rows_def sample_rows_def sample_filtered_def)

lemma sample_counts: "subreddit_counts sample_filtered = [(Some ''math'', 2), (Some ''news'', 1)]"
  by (simp add: subreddit_counts_def group_count_def sample_filtered_def)

lemma sample_filter_data:
  "filter_data (sort_key (\<lambda>c. - int (snd c))) sample_rows = sample_filtered"
  unfolding filter_data_def Let_def sample_not_null sample_counts
  by (simp add: sample_filtered_def)

lemma conf_get_session_options:
  "conf_get (session_options c m) ''spark.executor.cores'' = Inr (py_str (min c 4))"
  "conf_get (session_options c m) ''spark.executor.memory'' = Inr m"
  "conf_get (session_options c m) ''spark.cores.max'' = Inr (py_str (min c 32))"
  by (simp_all add: conf_get_def session_options_def)

lemma scoring_build:
  assumes "size_estimator len = Inr (c, m)"
  shows "build_spark_session (scoring_engine len k score) hdfs_path file_path
           \<lparr>cluster = w, sessions = live, peak_sessions = p, stdout = out\<rparr>
         = (Inr (session_options c m, len),
            \<lparr>cluster = w, sessions = [session_options c m], peak_sessions = max p 1, stdout = out\<rparr>)"
  by (cases live)
    (simp_all add: build_spark_session_def bind_action_def getOrCreate_def external_def stop_def
      lift_result_def return_action_def scoring_engine_sel assms)

lemmas sample_build = scoring_build [of _ _ _ _ "\<lambda>w. 1 / 2", folded sample_engine_def]

lemma scoring_run_once:
  assumes "size_estimator len = Inr (c, m)"
  shows "run_once (scoring_engine len k score) hdfs_path file_path i
           \<lparr>cluster = w, sessions = live, peak_sessions = p, stdout = out\<rparr>
         = (if w + 2 = k then
              (Inl (SparkError ''executor lost''),
               \<lparr>cluster = w + 2, sessions = [session_options c m], peak_sessions = max p 1,
                stdout = out @ [''File '' @ file_path @ '', run '' @ py_str (int i)]\<rparr>)
            else
              (Inr \<lparr>run_load_time =
                      float_sub (Finite (real ((w + 1) * (w + 1)))) (Finite (real (w * w))),
                    run_train_time =
                      float_sub (Finite (real ((w + 2) * (w + 2)))) (Finite (real ((w + 1) * (w + 1)))),
                    run_eval_time =
                      float_sub (Finite (real ((w + 3) * (w + 3)))) (Finite (real ((w + 2) * (w + 2)))),
                    run_total_time =
                      float_sub (Finite (real ((w + 4) * (w + 4)))) (Finite (real (w * w))),
                    run_accuracy = score (w + 3),
                    run_fileSize = len,
                    run_executor_cores = py_str (min c 4),
                    run_executor_memory = m,
                    run_max_cores = py_str (min c 32)\<rparr>,
               \<lparr>cluster = w + 5, sessions = [], peak_sessions = max p 1,
                stdout = out @ [''File '' @ file_path @ '', run '' @ py_str (int i)]\<rparr>))"
  unfolding run_once_def
  apply (simp add: bind_action_def [abs_def] print_line_def clock_def external_def
      scoring_build [OF assms] load_data_def split_data_def randomSplit_def lift_result_def
      return_action_def random_forest_def model_eval_def stop_def scoring_engine_sel
      sample_filter_data conf_get_session_options sample_filtered_def)
  apply (simp add: algebra_simps numeral_3_eq_3)
  done

lemma sample_size: "size_estimator 392091874 = Inr (2, ''2g'')"
  by (simp add: py_defs)

lemma scenario_size: "size_estimator 19617263124 = Inr (38, ''4g'')"
  by (simp add: py_defs)

lemma sample_gb: "bytes_to_gb 392091874 = Inr (196045937 / 536870912)"
  by (simp add: py_defs)

lemma py_str_digits: "py_str 0 = ''0''" "py_str 1 = ''1''" "py_str 2 = ''2''"
  by (simp_all add: py_str_def str_nat.simps)

text \<open>The durations of the first three repetitions are whole numbers, and exact.\<close>

lemma fl_whole:
  "fl 1 = Finite 1" "fl 3 = Finite 3" "fl 5 = Finite 5" "fl 16 = Finite 16"
  "fl 11 = Finite 11" "fl 13 = Finite 13" "fl 15 = Finite 15" "fl 56 = Finite 56"
  "fl 21 = Finite 21" "fl 23 = Finite 23" "fl 25 = Finite 25" "fl 96 = Finite 96"
  by (simp_all add: fl_defs)

lemma fl_sums:
  "fl 12 = Finite 12" "fl 6 = Finite 6" "fl 8 = Finite 8" "fl 20 = Finite 20"
  "fl 10 = Finite 10" "fl 72 = Finite 72" "fl 36 = Finite 36" "fl (1 / 2) = Finite (1 / 2)"
  "fl 33 = Finite 33" "fl 39 = Finite 39" "fl 45 = Finite 45" "fl 168 = Finite 168"
  by (simp_all add: fl_defs)

lemma scoring_runs:
  "run_once (scoring_engine 392091874 k score) ''hdfs://h'' ''/data/a.json'' 0 fresh_process =
     (if k = 2 then
        (Inl (SparkError ''executor lost''), crashed_at_once)
      else
        (Inr \<lparr>run_load_time = Finite 1, run_train_time = Finite 3, run_eval_time = Finite 5,
              run_total_time = Finite 16, run_accuracy = score 3, run_fileSize = 392091874,
              run_executor_cores = ''2'', run_executor_memory = ''2g'', run_max_cores = ''2''\<rparr>,
         first_run_done))"
  "run_once (scoring_engine 392091874 k score) ''hdfs://h'' ''/data/a.json'' 1 first_run_done =
     (if k = 7 then
        (Inl (SparkError ''executor lost''), crashed_process)
      else
        (Inr \<lparr>run_load_time = Finite 11, run_train_time = Finite 13, run_eval_time = Finite 15,
              run_total_time = Finite 56, run_accuracy = score 8, run_fileSize = 392091874,
              run_executor_cores = ''2'', run_executor_memory = ''2g'', run_max_cores = ''2''\<rparr>,
         second_run_done))"
  by (auto simp add: fresh_process_def first_run_done_def second_run_done_def crashed_process_def
      crashed_at_once_def scoring_run_once [OF sample_size] py_str_digits float_sub_def fl_whole)

lemmas sample_runs = scoring_runs [of _ "\<lambda>w. 1 / 2", folded sample_engine_def]

lemma sample_first_run:
  "run_once (sample_engine 392091874 k) ''hdfs://h'' ''/data/a.json'' 0 fresh_process =
     (if k = 2 then
        (Inl (SparkError ''executor lost''), crashed_at_once)
      else
        (Inr \<lparr>run_load_time = Finite 1, run_train_time = Finite 3, run_eval_time = Finite 5,
              run_total_time = Finite 16, run_accuracy = 1 / 2, run_fileSize = 392091874,
              run_executor_cores = ''2'', run_executor_memory = ''2g'', run_max_cores = ''2''\<rparr>,
         first_run_done))"
  by (rule sample_runs(1))

lemma sample_second_run:
  "run_once (sample_engine 392091874 100) ''hdfs://h'' ''/data/a.json'' 1 first_run_done =
     (Inr \<lparr>run_load_time = Finite 11, run_train_time = Finite 13, run_eval_time = Finite 15,
           run_total_time = Finite 56, run_accuracy = 1 / 2, run_fileSize = 392091874,
           run_executor_cores = ''2'', run_executor_memory = ''2g'', run_max_cores = ''2''\<rparr>,
      second_run_done)"
  using sample_runs(2) [of 100] by simp

lemma sample_crash_run:
  "run_once (sample_engine 392091874 7) ''hdfs://h'' ''/data/a.json'' 1 first_run_done
     = (Inl (SparkError ''executor lost''), crashed_process)"
  using sample_runs(2) [of 7] by simp

lemma sample_two_runs:
  "repetitions (sample_engine 392091874 100) ''hdfs://h'' ''/data/a.json'' 0 2 fresh_process =
     (Inr [\<lparr>run_load_time = Finite 1, run_train_time = Finite 3, run_eval_time = Finite 5,
            run_total_time = Finite 16, run_accuracy = 1 / 2, run_fileSize = 392091874,
            run_executor_cores = ''2'', run_executor_memory = ''2g'', run_max_cores = ''2''\<rparr>,
           \<lparr>run_load_time = Finite 11, run_train_time = Finite 13, run_eval_time = Finite 15,
            run_total_time = Finite 56, run_accuracy = 1 / 2, run_fileSize = 392091874,
            run_executor_cores = ''2'', run_executor_memory = ''2g'', run_max_cores = ''2''\<rparr>],
      second_run_done)"
  by (simp add: numeral_2_eq_2 sample_first_run sample_second_run [unfolded One_nat_def])

lemma np_mean_pair:
  "np_mean [Finite 1, Finite 11] = Finite 6"
  "np_mean [Finite 3, Finite 13] = Finite 8"
  "np_mean [Finite 5, Finite 15] = Finite 10"
  "np_mean [Finite 16, Finite 56] = Finite 36"
  "np_mean [Finite (1 / 2), Finite (1 / 2)] = Finite (1 / 2)"
  by (simp_all add: np_mean_def pairwise_sum.simps fl_whole fl_sums)

lemma sample_performance:
  "evaluate_performance (sample_engine 392091874 100) ''hdfs://h'' ''/data/a.json'' 2 fresh_process =
     (Inr \<lparr>File_size = 196045937 / 536870912, Executor_cores = ''2'', Executor_memory = ''2g'',
           Max_cores = ''2'', Data_load_time = Finite 6, Training_time = Finite 8,
           Evaluation_time = Finite 10, Overall_exec_time = Finite 36,
           Model_accuracy = Finite (1 / 2)\<rparr>,
      second_run_done)"
  by (simp add: evaluate_performance_eq sample_two_runs sample_gb np_mean_pair)

lemma sample_crash:
  "evaluate_performance (sample_engine 392091874 7) ''hdfs://h'' ''/data/a.json'' 2 fresh_process
     = (Inl (SparkError ''executor lost''), crashed_process)"
  by (simp add: evaluate_performance_eq numeral_2_eq_2 sample_first_run
      sample_crash_run [unfolded One_nat_def])

lemma sample_crash_at_once:
  "evaluate_performance (sample_engine 392091874 2) ''hdfs://h'' ''/data/a.json'' 2 fresh_process
     = (Inl (SparkError ''executor lost''), crashed_at_once)"
  by (simp add: evaluate_performance_eq numeral_2_eq_2 sample_first_run)

text \<open>Three repetitions with the accuracies \<open>tenths\<close>.\<close>

lemma tenths_third_run:
  "run_once (scoring_engine 392091874 100 tenths) ''hdfs://h'' ''/data/a.json'' 2 second_run_done =
     (Inr \<lparr>run_load_time = Finite 21, run_train_time = Finite 23, run_eval_time = Finite 25,
           run_total_time = Finite 96, run_accuracy = 5404319552844595 / 2 ^ 54,
           run_fileSize = 392091874, run_executor_cores = ''2'', run_executor_memory = ''2g'',
           run_max_cores = ''2''\<rparr>,
      third_run_done)"
  by (simp add: second_run_done_def third_run_done_def scoring_run_once [OF sample_size]
      py_str_digits float_sub_def fl_whole tenths_def)

lemma tenths_three_runs:
  "repetitions (scoring_engine 392091874 100 tenths) ''hdfs://h'' ''/data/a.json'' 0 3 fresh_process =
     (Inr [\<lparr>run_load_time = Finite 1, run_train_time = Finite 3, run_eval_time = Finite 5,
            run_total_time = Finite 16, run_accuracy = 3602879701896397 / 2 ^ 55,
            run_fileSize = 392091874, run_executor_cores = ''2'', run_executor_memory = ''2g'',
            run_max_cores = ''2''\<rparr>,
           \<lparr>run_load_time = Finite 11, run_train_time = Finite 13, run_eval_time = Finite 15,
            run_total_time = Finite 56, run_accuracy = 3602879701896397 / 2 ^ 54,
            run_fileSize = 392091874, run_executor_cores = ''2'', run_executor_memory = ''2g'',
            run_max_cores = ''2''\<rparr>,
           \<lparr>run_load_time = Finite 21, run_train_time = Finite 23, run_eval_time = Finite 25,
            run_total_time = Finite 96, run_accuracy = 5404319552844595 / 2 ^ 54,
            run_fileSize = 392091874, run_executor_cores = ''2'', run_executor_memory = ''2g'',
            run_max_cores = ''2''\<rparr>],
      third_run_done)"
  by (simp add: numeral_3_eq_3 scoring_runs(1) scoring_runs(2) [unfolded One_nat_def]
      tenths_third_run [unfolded numeral_2_eq_2] tenths_def)

lemma np_mean_tenths:
  "np_mean [Finite (3602879701896397 / 2 ^ 55), Finite (3602879701896397 / 2 ^ 54),
            Finite (5404319552844595 / 2 ^ 54)]
   = Finite (7205759403792795 / 2 ^ 55)"
  by (simp add: np_mean_def pairwise_sum.simps fl_defs)

lemma np_mean_triple:
  "np_mean [Finite 1, Finite 11, Finite 21] = Finite 11"
  "np_mean [Finite 3, Finite 13, Finite 23] = Finite 13"
  "np_mean [Finite 5, Finite 15, Finite 25] = Finite 15"
  "np_mean [Finite 16, Finite 56, Finite 96] = Finite 56"
  by (simp_all add: np_mean_def pairwise_sum.simps fl_whole fl_sums)

lemma tenths_performance:
  "evaluate_performance (scoring_engine 392091874 100 tenths) ''hdfs://h'' ''/data/a.json'' 3
     fresh_process =
     (Inr \<lparr>File_size = 196045937 / 536870912, Executor_cores = ''2'', Executor_memory = ''2g'',
           Max_cores = ''2'', Data_load_time = Finite 11, Training_time = Finite 13,
           Evaluation_time = Finite 15, Overall_exec_time = Finite 56,
           Model_accuracy = Finite (7205759403792795 / 2 ^ 55)\<rparr>,
      third_run_done)"
  by (simp add: evaluate_performance_eq tenths_three_runs [simplified] sample_gb np_mean_triple
      np_mean_tenths [simplified])

lemma sample_crash_of_three:
  "evaluate_performance (sample_engine 392091874 7) ''hdfs://h'' ''/data/a.json'' 3 fresh_process
     = (Inl (SparkError ''executor lost''), crashed_process)"
  by (simp add: evaluate_performance_eq numeral_3_eq_3 sample_first_run
      sample_crash_run [unfolded One_nat_def])

lemma fl_tenths:
  "fl (1 / 10) = Finite (3602879701896397 / 2 ^ 55)"
  "fl (1 / 5) = Finite (3602879701896397 / 2 ^ 54)"
  "fl (3 / 10) = Finite (5404319552844595 / 2 ^ 54)"
  by (simp_all add: fl_defs)

section \<open>The claims\<close>

subsection \<open>Sizing\<close>

text \<open>
  Claim C1. For every \<open>byte_size \<ge> 0\<close>, the plan that the sizing step produces has an
  even number of executor cores, at least 2, and an executor memory of between 1 and 4
  gigabytes. A plan is produced for every size below \<open>2 ^ 63\<close>, the range of the file
  length that HDFS reports.
\<close>

theorem size_estimator_plan:
  assumes "0 \<le> byte_size"
  shows "(\<forall>cores memory. size_estimator byte_size = Inr (cores, memory) \<longrightarrow>
            even cores \<and> 2 \<le> cores \<and>
            (\<exists>gb. memory = py_str gb @ ''g'' \<and> 1 \<le> gb \<and> gb \<le> 4))
         \<and> (byte_size < 2 ^ 63 \<longrightarrow> (\<exists>plan. size_estimator byte_size = Inr plan))"
proof (intro conjI allI impI)
  fix c m
  assume se: "size_estimator byte_size = Inr (c, m)"
  let ?k = "\<lfloor>real (float_of_nat (nat byte_size)) / (1024 * 1024 * 1024) * 2\<rfloor> + 2"
  have c: "c = next_even ?k" using assms se by (rule size_estimator_cores)
  show "even c" unfolding c by (rule next_even_even)
  have "2 \<le> ?k" by simp
  also have "?k \<le> next_even ?k" by (rule next_even_ge)
  finally show c2: "2 \<le> c" unfolding c .
  from se obtain gb where "configure_spark gb = Inr (c, m)" by (rule size_estimator_Inr)
  then have "m = py_str (min c 4) @ ''g''" by (rule configure_spark_Inr(2))
  with c2 show "\<exists>gb. m = py_str gb @ ''g'' \<and> 1 \<le> gb \<and> gb \<le> 4"
    by (intro exI [of _ "min c 4"]) simp
next
  assume "byte_size < 2 ^ 63"
  with assms have "\<bar>byte_size\<bar> < 2 ^ 63" by simp
  then show "\<exists>plan. size_estimator byte_size = Inr plan" by (rule size_estimator_succeeds)
qed

theorem size_estimator_plan_witness:
  "(0::int) \<le> 392091874 \<and> size_estimator 392091874 = Inr (2, ''2g'')
   \<and> even (2::int) \<and> (2::int) \<le> 2
   \<and> (\<exists>gb. ''2g'' = py_str gb @ ''g'' \<and> 1 \<le> gb \<and> gb \<le> 4)
   \<and> (392091874::int) < 2 ^ 63"
proof -
  have "(0::int) \<le> 392091874" by simp
  from size_estimator_plan [OF this] sample_size show ?thesis by simp
qed

text \<open>
  Claim C2. The sizing is monotonic: for \<open>0 \<le> byte_size1 \<le> byte_size2\<close>, the cores
  computed for \<open>byte_size1\<close> are at most the cores computed for \<open>byte_size2\<close>; when
  the larger size has a plan, so has the smaller.
\<close>

theorem size_estimator_monotone:
  assumes "0 \<le> byte_size1" and "byte_size1 \<le> byte_size2"
    and "size_estimator byte_size2 = Inr (cores2, memory2)"
  shows "\<exists>cores1 memory1. size_estimator byte_size1 = Inr (cores1, memory1) \<and> cores1 \<le> cores2"
proof -
  have le: "float_of_nat (nat byte_size1) \<le> float_of_nat (nat byte_size2)"
    using assms(2) by (intro float_of_nat_mono) simp
  from assms have nonneg: "0 \<le> byte_size2" by simp
  from assms(3) have "\<not> (\<exists>e. size_estimator byte_size2 = Inl e)" by simp
  then have "\<not> 2 ^ 1053 \<le> float_of_nat (nat \<bar>byte_size2\<bar>)"
    using size_estimator_raises_iff [of byte_size2] by blast
  with le assms(1) nonneg have "\<not> 2 ^ 1053 \<le> float_of_nat (nat \<bar>byte_size1\<bar>)" by simp
  then have "\<not> (\<exists>e. size_estimator byte_size1 = Inl e)"
    using size_estimator_raises_iff [of byte_size1] by blast
  then obtain cores1 memory1 where one: "size_estimator byte_size1 = Inr (cores1, memory1)"
    by (cases "size_estimator byte_size1") auto
  from le have "real (float_of_nat (nat byte_size1)) \<le> real (float_of_nat (nat byte_size2))"
    by (simp only: of_nat_le_iff)
  then have "real (float_of_nat (nat byte_size1)) / (1024 * 1024 * 1024) * 2
             \<le> real (float_of_nat (nat byte_size2)) / (1024 * 1024 * 1024) * 2"
    by simp
  then have "\<lfloor>real (float_of_nat (nat byte_size1)) / (1024 * 1024 * 1024) * 2\<rfloor> + 2
             \<le> \<lfloor>real (float_of_nat (nat byte_size2)) / (1024 * 1024 * 1024) * 2\<rfloor> + 2"
    by (simp only: add_le_cancel_right floor_mono)
  then have "next_even (\<lfloor>real (float_of_nat (nat byte_size1)) / (1024 * 1024 * 1024) * 2\<rfloor> + 2)
             \<le> next_even (\<lfloor>real (float_of_nat (nat byte_size2)) / (1024 * 1024 * 1024) * 2\<rfloor> + 2)"
    by (rule next_even_mono)
  then have "cores1 \<le> cores2"
    using size_estimator_cores [OF assms(1) one] size_estimator_cores [OF nonneg assms(3)] by simp
  with one show ?thesis by blast
qed

theorem size_estimator_monotone_witness:
  "(0::int) \<le> 392091874 \<and> (392091874::int) \<le> 19617263124
   \<and> size_estimator 19617263124 = Inr (38, ''4g'')
   \<and> size_estimator 392091874 = Inr (2, ''2g'') \<and> (2::int) \<le> 38"
proof -
  have "(0::int) \<le> 392091874" "(392091874::int) \<le> 19617263124" by simp_all
  from size_estimator_monotone [OF this scenario_size] sample_size scenario_size
  show ?thesis by simp
qed

text \<open>
  Claim C3. For a file of 18.27 GB (19617263124 bytes) the session is configured with
  \<^verbatim>\<open>spark.executor.cores\<close> equal to 4 and \<^verbatim>\<open>spark.executor.memory\<close> equal to \<^verbatim>\<open>"4g"\<close>;
  \<^verbatim>\<open>configure_spark\<close> itself answers 38 cores, which the session caps at 4.
\<close>

theorem scenario_b_session:
  assumes "build_spark_session eng hdfs_path file_path s = (Inr (spark_session, 19617263124), s')"
  shows "conf_get spark_session ''spark.executor.cores'' = Inr ''4''
         \<and> conf_get spark_session ''spark.executor.memory'' = Inr ''4g''
         \<and> size_estimator 19617263124 = Inr (38, ''4g'')"
proof -
  from build_spark_session_Inr(2) [OF assms] scenario_size
  have "spark_session = session_options 38 ''4g''" by simp
  then show ?thesis
    by (simp add: conf_get_session_options scenario_size py_str_def str_nat.simps)
qed

theorem scenario_b_session_witness:
  "build_spark_session (sample_engine 19617263124 100) ''hdfs://h'' ''/data/corpus.json'' fresh_process
     = (Inr (session_options 38 ''4g'', 19617263124),
        \<lparr>cluster = 0, sessions = [session_options 38 ''4g''], peak_sessions = 1, stdout = []\<rparr>)
   \<and> conf_get (session_options 38 ''4g'') ''spark.executor.cores'' = Inr ''4''
   \<and> conf_get (session_options 38 ''4g'') ''spark.executor.memory'' = Inr ''4g''"
proof -
  have built: "build_spark_session (sample_engine 19617263124 100) ''hdfs://h'' ''/data/corpus.json''
      fresh_process
     = (Inr (session_options 38 ''4g'', 19617263124),
        \<lparr>cluster = 0, sessions = [session_options 38 ''4g''], peak_sessions = 1, stdout = []\<rparr>)"
    by (simp add: fresh_process_def sample_build [OF scenario_size])
  from scenario_b_session [OF built] built show ?thesis by simp
qed

text \<open>
  Claim C4, as the code has it. The sizing step does not look at the sign of
  \<open>byte_size\<close>: it raises exactly when the magnitude of \<open>byte_size\<close>, rounded to a
  double, is \<open>2 ^ 1053\<close> or more, which is when the float arithmetic overflows. So it
  returns a plan for every \<open>byte_size\<close> of magnitude below \<open>2 ^ 63\<close>, negative or not.
\<close>

theorem size_estimator_raises_only_on_overflow:
  "((\<exists>e. size_estimator byte_size = Inl e) \<longleftrightarrow> 2 ^ 1053 \<le> float_of_nat (nat \<bar>byte_size\<bar>))
   \<and> (\<bar>byte_size\<bar> < 2 ^ 63 \<longrightarrow> (\<exists>plan. size_estimator byte_size = Inr plan))"
  using size_estimator_raises_iff [of byte_size] size_estimator_succeeds [of byte_size]
  by blast

theorem size_estimator_raises_only_on_overflow_witness:
  "\<bar>- 4096 :: int\<bar> < 2 ^ 63 \<and> size_estimator (- 4096) = Inr (2, ''2g'')
   \<and> \<not> 2 ^ 1053 \<le> float_of_nat (nat \<bar>- 4096 :: int\<bar>)"
proof -
  have "size_estimator (- 4096) = Inr (2, ''2g'')" by (simp add: py_defs)
  with size_estimator_raises_only_on_overflow [of "- 4096"] show ?thesis by simp
qed

text \<open>
  The claim as the specification words it asks for an error on every negative size. For
  a size of minus one gigabyte the code returns a plan, of no cores and \<^verbatim>\<open>"0g"\<close>.
\<close>

theorem size_estimator_negative_counterexample:
  "size_estimator (- 1073741824) = Inr (0, ''0g'')"
  by (simp add: py_defs)

subsection \<open>Filtering and splitting\<close>

text \<open>
  Claim C5. For every input, the output of \<^verbatim>\<open>filter_data\<close> has no row with an absent
  \<^verbatim>\<open>subreddit\<close>, \<^verbatim>\<open>summary\<close> or \<^verbatim>\<open>content\<close>, and at most 25 distinct \<^verbatim>\<open>subreddit\<close>
  values. When the rows without nulls have at most 25 distinct values (and the engine's
  ordering returns the counts it was given, in some order), all of these rows are kept.
  When no row is without nulls, the output is empty.
\<close>

theorem filter_data_output:
  "(\<forall>r \<in> set (filter_data order_by_desc df).
       subreddit r \<noteq> None \<and> summary r \<noteq> None \<and> content r \<noteq> None)
   \<and> card (subreddit ` set (filter_data order_by_desc df)) \<le> 25
   \<and> (mset (order_by_desc (subreddit_counts (not_null_rows df)))
         = mset (subreddit_counts (not_null_rows df))
        \<and> card (subreddit ` set (not_null_rows df)) \<le> 25
      \<longrightarrow> filter_data order_by_desc df = not_null_rows df)
   \<and> (not_null_rows df = [] \<longrightarrow> filter_data order_by_desc df = [])"
  using filter_data_subset [of order_by_desc df] not_null_rows_complete [of _ df]
    filter_data_at_most_25 [of order_by_desc df] filter_data_keeps_all [of order_by_desc df]
    filter_data_empty [of df order_by_desc]
  by blast

theorem filter_data_output_witness:
  "filter_data (sort_key (\<lambda>c. - int (snd c))) sample_rows = sample_filtered
   \<and> map subreddit sample_filtered = [Some ''math'', Some ''math'', Some ''news'']
   \<and> map summary sample_filtered = [Some ''s1'', Some ''s2'', Some ''s4'']
   \<and> map content sample_filtered = [Some ''c1'', Some ''c2'', Some ''c4'']
   \<and> card (subreddit ` set (filter_data (sort_key (\<lambda>c. - int (snd c))) sample_rows)) \<le> 25
   \<and> mset (sort_key (\<lambda>c. - int (snd c)) (subreddit_counts (not_null_rows sample_rows)))
       = mset (subreddit_counts (not_null_rows sample_rows))
   \<and> card (subreddit ` set (not_null_rows sample_rows)) \<le> 25
   \<and> filter_data (sort_key (\<lambda>c. - int (snd c))) sample_rows = not_null_rows sample_rows
   \<and> not_null_rows [\<lparr>subreddit = Some ''math'', summary = None, content = None\<rparr>] = []
   \<and> filter_data (sort_key (\<lambda>c. - int (snd c)))
        [\<lparr>subreddit = Some ''math'', summary = None, content = None\<rparr>] = []"
proof -
  let ?ob = "sort_key (\<lambda>c. - int (snd c)) :: (string option \<times> nat) list \<Rightarrow> (string option \<times> nat) list"
  let ?nulls = "[\<lparr>subreddit = Some ''math'', summary = None, content = None\<rparr>]"
  note full = filter_data_output [of ?ob sample_rows]
  note empty = filter_data_output [of ?ob ?nulls]
  have maps: "map subreddit sample_filtered = [Some ''math'', Some ''math'', Some ''news'']"
    "map summary sample_filtered = [Some ''s1'', Some ''s2'', Some ''s4'']"
    "map content sample_filtered = [Some ''c1'', Some ''c2'', Some ''c4'']"
    by (simp_all add: sample_filtered_def)
  have perm: "mset (?ob (subreddit_counts (not_null_rows sample_rows)))
       = mset (subreddit_counts (not_null_rows sample_rows))"
    by simp
  have few: "card (subreddit ` set (not_null_rows sample_rows)) \<le> 25"
    unfolding sample_not_null by (simp add: sample_filtered_def card_insert_if)
  have none: "not_null_rows ?nulls = []"
    by (simp add: not_null_rows_def)
  from full have bound: "card (subreddit ` set (filter_data ?ob sample_rows)) \<le> 25" by blast
  from full perm few have kept: "filter_data ?ob sample_rows = not_null_rows sample_rows" by blast
  from empty none have emptied: "filter_data ?ob ?nulls = []" by blast
  from sample_filter_data maps bound perm few kept none emptied
  show ?thesis by blast
qed

text \<open>
  Claim C6. \<^verbatim>\<open>split_data\<close> is deterministic: two calls with the same seed and the same
  data give the same train and test sets, whatever the state of the process and of the
  cluster at each call, and the call leaves that state as it was.
\<close>

theorem split_data_deterministic:
  "fst (split_data eng df seed test_fraction s1) = fst (split_data eng df seed test_fraction s2)
   \<and> snd (split_data eng df seed test_fraction s1) = s1"
  by (simp add: split_data_def randomSplit_def bind_action_def lift_result_def return_action_def
      raise_def split: sum.splits list.splits)

subsection \<open>The harness\<close>

text \<open>
  Claim C7, as the code has it. When \<^verbatim>\<open>evaluate_performance\<close> returns a row for \<open>n\<close>
  repetitions, all \<open>n\<close> repetitions have returned, \<open>n\<close> is positive, and the load, train,
  evaluation and total times of the row and its accuracy are what \<^verbatim>\<open>.mean()\<close> computes in
  doubles from the corresponding values of the \<open>n\<close> repetitions, each repetition counted
  once and in the order of the repetitions: the values are added in the order of
  \<open>pairwise_sum\<close>, every addition rounded to a double, and the sum is divided by \<open>n\<close> and
  rounded again. The accuracy is averaged in this way from the accuracies of the
  repetitions; nothing is pooled.
\<close>

theorem benchmark_row_means:
  assumes "evaluate_performance eng hdfs_path file_path n s = (Inr row, s')"
  shows "\<exists>runs. repetitions eng hdfs_path file_path 0 n s = (Inr runs, s')
           \<and> length runs = n \<and> 0 < n
           \<and> Data_load_time row = np_mean (map run_load_time runs)
           \<and> Training_time row = np_mean (map run_train_time runs)
           \<and> Evaluation_time row = np_mean (map run_eval_time runs)
           \<and> Overall_exec_time row = np_mean (map run_total_time runs)
           \<and> Model_accuracy row = np_mean (map (\<lambda>r. Finite (run_accuracy r)) runs)"
  using assms
proof (rule evaluate_performance_Inr)
  fix rs
  assume "repetitions eng hdfs_path file_path 0 n s = (Inr rs, s')" "length rs = n" "0 < n"
    "Data_load_time row = np_mean (map run_load_time rs)"
    "Training_time row = np_mean (map run_train_time rs)"
    "Evaluation_time row = np_mean (map run_eval_time rs)"
    "Overall_exec_time row = np_mean (map run_total_time rs)"
    "Model_accuracy row = np_mean (map (\<lambda>r. Finite (run_accuracy r)) rs)"
  then show ?thesis by (intro exI [of _ rs]) simp
qed

theorem benchmark_row_means_witness:
  "evaluate_performance (scoring_engine 392091874 100 tenths) ''hdfs://h'' ''/data/a.json'' 3
     fresh_process =
     (Inr \<lparr>File_size = 196045937 / 536870912, Executor_cores = ''2'', Executor_memory = ''2g'',
           Max_cores = ''2'', Data_load_time = Finite 11, Training_time = Finite 13,
           Evaluation_time = Finite 15, Overall_exec_time = Finite 56,
           Model_accuracy = Finite (7205759403792795 / 2 ^ 55)\<rparr>,
      third_run_done)
   \<and> (\<exists>runs. repetitions (scoring_engine 392091874 100 tenths) ''hdfs://h'' ''/data/a.json'' 0 3
           fresh_process = (Inr runs, third_run_done)
       \<and> length runs = 3
       \<and> Finite 11 = np_mean (map run_load_time runs)
       \<and> Finite 13 = np_mean (map run_train_time runs)
       \<and> Finite 15 = np_mean (map run_eval_time runs)
       \<and> Finite 56 = np_mean (map run_total_time runs)
       \<and> Finite (7205759403792795 / 2 ^ 55) = np_mean (map (\<lambda>r. Finite (run_accuracy r)) runs))"
  using benchmark_row_means [OF tenths_performance] tenths_performance by simp

text \<open>
  The claim as the specification words it has the fields of the row equal to the
  arithmetic means. With three repetitions whose accuracies are the doubles nearest to
  \<open>0.1\<close>, \<open>0.2\<close> and \<open>0.3\<close>, the accuracy of the row is \<open>7205759403792795 / 2\<^sup>5\<^sup>5\<close>
  (printed \<^verbatim>\<open>0.20000000000000004\<close>), which is not the sum of the three divided by three.
\<close>

theorem benchmark_row_means_counterexample:
  "fl (1 / 10) = Finite (3602879701896397 / 2 ^ 55)
   \<and> fl (1 / 5) = Finite (3602879701896397 / 2 ^ 54)
   \<and> fl (3 / 10) = Finite (5404319552844595 / 2 ^ 54)
   \<and> map run_accuracy
       (projr (fst (repetitions (scoring_engine 392091874 100 tenths) ''hdfs://h'' ''/data/a.json''
          0 3 fresh_process)))
     = [3602879701896397 / 2 ^ 55, 3602879701896397 / 2 ^ 54, 5404319552844595 / 2 ^ 54]
   \<and> (3602879701896397 / 2 ^ 55 + 3602879701896397 / 2 ^ 54 + 5404319552844595 / 2 ^ 54) / 3
     = (21617278211378381 / 108086391056891904 :: real)
   \<and> Model_accuracy
       (projr (fst (evaluate_performance (scoring_engine 392091874 100 tenths) ''hdfs://h''
          ''/data/a.json'' 3 fresh_process)))
     = Finite (7205759403792795 / 2 ^ 55)
   \<and> Finite (7205759403792795 / 2 ^ 55) \<noteq> Finite (21617278211378381 / 108086391056891904)"
  by (simp add: fl_tenths [simplified] tenths_three_runs [simplified]
      tenths_performance [simplified])

text \<open>
  Claim C8, as the code has it. An error raised while a file is benchmarked is caught at
  the loop over the files: the two lines are printed, the benchmark goes on with the next
  file, and the rows collected so far stay as they are. A file gets no row exactly when
  one of its repetitions raises, after the repetitions before it have returned (or when
  \<open>n = 0\<close>). The first repetition that raises ends the whole call, and the later ones
  are never run: \<^verbatim>\<open>evaluate_performance\<close> raises the error \<open>e\<close> and leaves the process in
  the state \<open>s1\<close> exactly when some repetition \<open>j < n\<close>, started where the repetitions
  before it returned, raises \<open>e\<close> and leaves \<open>s1\<close> (or when \<open>n = 0\<close>, the error is the
  unbound \<^verbatim>\<open>fileSize\<close> and the state is unchanged); and then the benchmark goes on with
  the next file from the state that repetition left, after its error has been printed.
\<close>

theorem benchmark_failure_isolated:
  "(\<forall>e s1. evaluate_performance eng hdfs_path (file_path @ f) n s = (Inl e, s1) \<longrightarrow>
      benchmark_files eng hdfs_path file_path n (f # files) results s
        = benchmark_files eng hdfs_path file_path n files results (print_crash f e s1))
   \<and> (\<exists>rows. fst (benchmark_files eng hdfs_path file_path n (f # files) results s) = results @ rows)
   \<and> (fst (benchmark_files eng hdfs_path file_path n [f] results s) = results
       \<longleftrightarrow> n = 0 \<or> (\<exists>j<n. \<exists>runs sj e s1.
               repetitions eng hdfs_path (file_path @ f) 0 j s = (Inr runs, sj)
               \<and> run_once eng hdfs_path (file_path @ f) j sj = (Inl e, s1)))
   \<and> (\<forall>e s1. evaluate_performance eng hdfs_path (file_path @ f) n s = (Inl e, s1)
       \<longleftrightarrow> (n = 0
             \<and> e = UnboundLocalError ''local variable 'fileSize' referenced before assignment''
             \<and> s1 = s)
           \<or> (\<exists>j<n. \<exists>runs sj.
               repetitions eng hdfs_path (file_path @ f) 0 j s = (Inr runs, sj)
               \<and> run_once eng hdfs_path (file_path @ f) j sj = (Inl e, s1)))
   \<and> (\<forall>j runs sj e s1. j < n
        \<and> repetitions eng hdfs_path (file_path @ f) 0 j s = (Inr runs, sj)
        \<and> run_once eng hdfs_path (file_path @ f) j sj = (Inl e, s1) \<longrightarrow>
      benchmark_files eng hdfs_path file_path n (f # files) results s
        = benchmark_files eng hdfs_path file_path n files results (print_crash f e s1))"
proof (intro conjI)
  show "\<forall>e s1. evaluate_performance eng hdfs_path (file_path @ f) n s = (Inl e, s1) \<longrightarrow>
      benchmark_files eng hdfs_path file_path n (f # files) results s
        = benchmark_files eng hdfs_path file_path n files results (print_crash f e s1)"
    by simp
  show "\<exists>rows. fst (benchmark_files eng hdfs_path file_path n (f # files) results s) = results @ rows"
    by (rule benchmark_files_extends)
  have "(\<exists>e s'. repetitions eng hdfs_path (file_path @ f) 0 n s = (Inl e, s'))
        \<longleftrightarrow> (\<exists>j<n. \<exists>runs sj e s1.
               repetitions eng hdfs_path (file_path @ f) 0 j s = (Inr runs, sj)
               \<and> run_once eng hdfs_path (file_path @ f) j sj = (Inl e, s1))"
    by (simp add: repetitions_raises_iff) blast
  then show "fst (benchmark_files eng hdfs_path file_path n [f] results s) = results
       \<longleftrightarrow> n = 0 \<or> (\<exists>j<n. \<exists>runs sj e s1.
               repetitions eng hdfs_path (file_path @ f) 0 j s = (Inr runs, sj)
               \<and> run_once eng hdfs_path (file_path @ f) j sj = (Inl e, s1))"
    unfolding benchmark_one_file_no_row evaluate_performance_raises_iff by simp
  show raises: "\<forall>e s1. evaluate_performance eng hdfs_path (file_path @ f) n s = (Inl e, s1)
       \<longleftrightarrow> (n = 0
             \<and> e = UnboundLocalError ''local variable 'fileSize' referenced before assignment''
             \<and> s1 = s)
           \<or> (\<exists>j<n. \<exists>runs sj.
               repetitions eng hdfs_path (file_path @ f) 0 j s = (Inr runs, sj)
               \<and> run_once eng hdfs_path (file_path @ f) j sj = (Inl e, s1))"
    by (intro allI) (rule evaluate_performance_raises_eq)
  show "\<forall>j runs sj e s1. j < n
        \<and> repetitions eng hdfs_path (file_path @ f) 0 j s = (Inr runs, sj)
        \<and> run_once eng hdfs_path (file_path @ f) j sj = (Inl e, s1) \<longrightarrow>
      benchmark_files eng hdfs_path file_path n (f # files) results s
        = benchmark_files eng hdfs_path file_path n files results (print_crash f e s1)"
  proof (intro allI impI)
    fix j runs sj e s1
    assume "j < n
        \<and> repetitions eng hdfs_path (file_path @ f) 0 j s = (Inr runs, sj)
        \<and> run_once eng hdfs_path (file_path @ f) j sj = (Inl e, s1)"
    with raises have "evaluate_performance eng hdfs_path (file_path @ f) n s = (Inl e, s1)"
      by blast
    then show "benchmark_files eng hdfs_path file_path n (f # files) results s
        = benchmark_files eng hdfs_path file_path n files results (print_crash f e s1)"
      by simp
  qed
qed

theorem benchmark_failure_isolated_witness:
  "(0::nat) < 2
   \<and> repetitions (sample_engine 392091874 2) ''hdfs://h'' (''/data/'' @ ''a.json'') 0 0 fresh_process
     = (Inr [], fresh_process)
   \<and> run_once (sample_engine 392091874 2) ''hdfs://h'' (''/data/'' @ ''a.json'') 0 fresh_process
     = (Inl (SparkError ''executor lost''), crashed_at_once)
   \<and> evaluate_performance (sample_engine 392091874 2) ''hdfs://h'' (''/data/'' @ ''a.json'') 2
        fresh_process
     = (Inl (SparkError ''executor lost''), crashed_at_once)
   \<and> stdout crashed_at_once = [''File /data/a.json, run 0'']
   \<and> benchmark_files (sample_engine 392091874 2) ''hdfs://h'' ''/data/'' 2 [''a.json'', ''b.json'']
        [] fresh_process
     = benchmark_files (sample_engine 392091874 2) ''hdfs://h'' ''/data/'' 2 [''b.json'']
        [] (print_crash ''a.json'' (SparkError ''executor lost'') crashed_at_once)
   \<and> fst (benchmark_files (sample_engine 392091874 2) ''hdfs://h'' ''/data/'' 2 [''a.json'']
        [] fresh_process) = []
   \<and> (1::nat) < 3
   \<and> fst (repetitions (sample_engine 392091874 7) ''hdfs://h'' (''/data/'' @ ''a.json'') 0 1
        fresh_process)
     = Inr [\<lparr>run_load_time = Finite 1, run_train_time = Finite 3, run_eval_time = Finite 5,
             run_total_time = Finite 16, run_accuracy = 1 / 2, run_fileSize = 392091874,
             run_executor_cores = ''2'', run_executor_memory = ''2g'', run_max_cores = ''2''\<rparr>]
   \<and> run_once (sample_engine 392091874 7) ''hdfs://h'' (''/data/'' @ ''a.json'') 1 first_run_done
     = (Inl (SparkError ''executor lost''), crashed_process)
   \<and> evaluate_performance (sample_engine 392091874 7) ''hdfs://h'' (''/data/'' @ ''a.json'') 3
        fresh_process
     = (Inl (SparkError ''executor lost''), crashed_process)
   \<and> stdout crashed_process = [''File /data/a.json, run 0'', ''File /data/a.json, run 1'']
   \<and> benchmark_files (sample_engine 392091874 7) ''hdfs://h'' ''/data/'' 3 [''a.json'', ''b.json'']
        [] fresh_process
     = benchmark_files (sample_engine 392091874 7) ''hdfs://h'' ''/data/'' 3 [''b.json'']
        [] (print_crash ''a.json'' (SparkError ''executor lost'') crashed_process)
   \<and> fst (benchmark_files (sample_engine 392091874 7) ''hdfs://h'' ''/data/'' 3 [''a.json'']
        [] fresh_process) = []"
proof -
  have first: "run_once (sample_engine 392091874 2) ''hdfs://h'' (''/data/'' @ ''a.json'') 0
      fresh_process = (Inl (SparkError ''executor lost''), crashed_at_once)"
    by (simp add: sample_first_run)
  have one: "repetitions (sample_engine 392091874 7) ''hdfs://h'' (''/data/'' @ ''a.json'') 0 1
      fresh_process
     = (Inr [\<lparr>run_load_time = Finite 1, run_train_time = Finite 3, run_eval_time = Finite 5,
              run_total_time = Finite 16, run_accuracy = 1 / 2, run_fileSize = 392091874,
              run_executor_cores = ''2'', run_executor_memory = ''2g'', run_max_cores = ''2''\<rparr>],
        first_run_done)"
    by (simp add: sample_first_run)
  have second: "run_once (sample_engine 392091874 7) ''hdfs://h'' (''/data/'' @ ''a.json'') 1
      first_run_done = (Inl (SparkError ''executor lost''), crashed_process)"
    using sample_crash_run by simp
  note at_once = benchmark_failure_isolated [of "sample_engine 392091874 2" "''hdfs://h''"
      "''/data/''" "''a.json''" 2 fresh_process "[''b.json'']" "[]"]
  note later = benchmark_failure_isolated [of "sample_engine 392091874 7" "''hdfs://h''"
      "''/data/''" "''a.json''" 3 fresh_process "[''b.json'']" "[]"]
  have "evaluate_performance (sample_engine 392091874 2) ''hdfs://h'' (''/data/'' @ ''a.json'') 2
        fresh_process = (Inl (SparkError ''executor lost''), crashed_at_once)"
    using at_once first by (intro iffD2 [OF at_once [THEN conjunct2, THEN conjunct2, THEN conjunct2,
      THEN conjunct1, rule_format]] disjI2 exI [of _ 0] exI [of _ "[]"] exI [of _ fresh_process]) simp
  moreover have "benchmark_files (sample_engine 392091874 2) ''hdfs://h'' ''/data/'' 2
        [''a.json'', ''b.json''] [] fresh_process
     = benchmark_files (sample_engine 392091874 2) ''hdfs://h'' ''/data/'' 2 [''b.json'']
        [] (print_crash ''a.json'' (SparkError ''executor lost'') crashed_at_once)"
    using first
    by (intro at_once [THEN conjunct2, THEN conjunct2, THEN conjunct2, THEN conjunct2,
      rule_format, of 0 "[]" fresh_process]) simp
  moreover have "fst (benchmark_files (sample_engine 392091874 2) ''hdfs://h'' ''/data/'' 2
        [''a.json''] [] fresh_process) = []"
    using first
    by (intro iffD2 [OF at_once [THEN conjunct2, THEN conjunct2, THEN conjunct1]]
      disjI2 exI [of _ 0] exI [of _ "[]"] exI [of _ fresh_process]) auto
  moreover have "evaluate_performance (sample_engine 392091874 7) ''hdfs://h''
        (''/data/'' @ ''a.json'') 3 fresh_process
     = (Inl (SparkError ''executor lost''), crashed_process)"
    using one second
    by (intro iffD2 [OF later [THEN conjunct2, THEN conjunct2, THEN conjunct2,
      THEN conjunct1, rule_format]] disjI2 exI [of _ 1] exI [of _ first_run_done]
      exI [of _ "[\<lparr>run_load_time = Finite 1, run_train_time = Finite 3, run_eval_time = Finite 5,
              run_total_time = Finite 16, run_accuracy = 1 / 2, run_fileSize = 392091874,
              run_executor_cores = ''2'', run_executor_memory = ''2g'', run_max_cores = ''2''\<rparr>]"])
      simp
  moreover have "benchmark_files (sample_engine 392091874 7) ''hdfs://h'' ''/data/'' 3
        [''a.json'', ''b.json''] [] fresh_process
     = benchmark_files (sample_engine 392091874 7) ''hdfs://h'' ''/data/'' 3 [''b.json'']
        [] (print_crash ''a.json'' (SparkError ''executor lost'') crashed_process)"
    using one second
    by (intro later [THEN conjunct2, THEN conjunct2, THEN conjunct2, THEN conjunct2,
      rule_format, of 1 _ first_run_done]) simp
  moreover have "fst (benchmark_files (sample_engine 392091874 7) ''hdfs://h'' ''/data/'' 3
        [''a.json''] [] fresh_process) = []"
    using one second
    by (intro iffD2 [OF later [THEN conjunct2, THEN conjunct2, THEN conjunct1]]
      disjI2 exI [of _ 1]) auto
  ultimately show ?thesis using first one second
    by (simp add: crashed_at_once_def crashed_process_def)
qed

text \<open>
  The claim as the specification words it has a file without a row exactly when all
  \<open>n\<close> of its repetitions fail. With three repetitions of which the first returns and
  the second raises, the file has no row, and the third repetition is never run: the
  output ends with the line of the second repetition and the two lines of the crash.
\<close>

theorem benchmark_all_fail_counterexample:
  "fst (run_once (sample_engine 392091874 7) ''hdfs://h'' ''/data/a.json'' 0 fresh_process)
     = Inr \<lparr>run_load_time = Finite 1, run_train_time = Finite 3, run_eval_time = Finite 5,
            run_total_time = Finite 16, run_accuracy = 1 / 2, run_fileSize = 392091874,
            run_executor_cores = ''2'', run_executor_memory = ''2g'', run_max_cores = ''2''\<rparr>
   \<and> benchmark_files (sample_engine 392091874 7) ''hdfs://h'' ''/data/'' 3 [''a.json'']
        [] fresh_process
     = ([], \<lparr>cluster = 7, sessions = [session_options 2 ''2g''], peak_sessions = 1,
             stdout = [''File /data/a.json, run 0'', ''File /data/a.json, run 1'',
                       ''Crashed when evaluating a.json with error:'', ''executor lost'']\<rparr>)"
  by (simp add: sample_first_run sample_crash_of_three print_crash_def crashed_process_def)

text \<open>
  Claim C9, as the code has it. A repetition that returns has stopped its session: no
  session is live when it ends. A repetition in which a step raises after the session
  was built ends with that session still live (it is stopped by the next call of
  \<^verbatim>\<open>build_spark_session\<close>, if there is one); only an error that comes out of
  \<^verbatim>\<open>build_spark_session\<close> itself can leave no session. At no time during a repetition, or
  during the whole benchmark, is more than one session live.
\<close>

theorem session_teardown:
  "(\<forall>a s'. run_once eng hdfs_path file_path i s = (Inr a, s') \<longrightarrow> sessions s' = [])
   \<and> (\<forall>e s'. run_once eng hdfs_path file_path i s = (Inl e, s') \<longrightarrow>
         sessions s' \<noteq> [] \<or> (\<exists>s0. build_spark_session eng hdfs_path file_path s0 = (Inl e, s')))
   \<and> (session_bound s \<longrightarrow>
         session_bound (snd (run_once eng hdfs_path file_path i s))
         \<and> session_bound (snd (benchmark_files eng hdfs_path directory n files results s)))"
proof (intro conjI allI impI)
  fix a s'
  assume "run_once eng hdfs_path file_path i s = (Inr a, s')"
  from run_once_sessions [OF this] show "sessions s' = []" by simp
next
  fix e s'
  assume "run_once eng hdfs_path file_path i s = (Inl e, s')"
  from run_once_sessions [OF this]
  show "sessions s' \<noteq> [] \<or> (\<exists>s0. build_spark_session eng hdfs_path file_path s0 = (Inl e, s'))"
    by simp
next
  assume b: "session_bound s"
  obtain r s' where "run_once eng hdfs_path file_path i s = (r, s')"
    by (cases "run_once eng hdfs_path file_path i s")
  with b keeps_bound_run_once [of eng hdfs_path file_path i]
  show "session_bound (snd (run_once eng hdfs_path file_path i s))"
    unfolding keeps_bound_def by auto
  from b show "session_bound (snd (benchmark_files eng hdfs_path directory n files results s))"
    by (rule benchmark_files_bound)
qed

theorem session_teardown_witness:
  "run_once (sample_engine 392091874 100) ''hdfs://h'' ''/data/a.json'' 0 fresh_process
     = (Inr \<lparr>run_load_time = Finite 1, run_train_time = Finite 3, run_eval_time = Finite 5,
             run_total_time = Finite 16, run_accuracy = 1 / 2, run_fileSize = 392091874, run_executor_cores = ''2'',
             run_executor_memory = ''2g'', run_max_cores = ''2''\<rparr>,
        first_run_done)
   \<and> sessions first_run_done = []
   \<and> run_once (sample_engine 392091874 7) ''hdfs://h'' ''/data/a.json'' 1 first_run_done
     = (Inl (SparkError ''executor lost''), crashed_process)
   \<and> sessions crashed_process \<noteq> []
   \<and> session_bound first_run_done
   \<and> session_bound crashed_process
   \<and> session_bound (snd (benchmark_files (sample_engine 392091874 7) ''hdfs://h'' ''/data/'' 2
        [''a.json'', ''b.json''] [] first_run_done))"
proof -
  have ok: "run_once (sample_engine 392091874 100) ''hdfs://h'' ''/data/a.json'' 0 fresh_process
     = (Inr \<lparr>run_load_time = Finite 1, run_train_time = Finite 3, run_eval_time = Finite 5,
             run_total_time = Finite 16, run_accuracy = 1 / 2, run_fileSize = 392091874, run_executor_cores = ''2'',
             run_executor_memory = ''2g'', run_max_cores = ''2''\<rparr>,
        first_run_done)"
    by (simp add: sample_first_run)
  have bound: "session_bound first_run_done"
    by (simp add: session_bound_def first_run_done_def)
  from session_teardown [of "sample_engine 392091874 100" "''hdfs://h''" "''/data/a.json''" 0
      fresh_process]
    session_teardown [of "sample_engine 392091874 7" "''hdfs://h''" "''/data/a.json''" 1
      first_run_done "''/data/''" 2 "[''a.json'', ''b.json'']" "[]"]
    ok sample_crash_run bound
  show ?thesis by (simp add: crashed_process_def)
qed

text \<open>
  The claim as the specification words it has the session torn down on every way out of
  the repetition. In a first repetition in which fitting fails, the repetition ends with
  the error and its session is still live.
\<close>

theorem session_teardown_counterexample:
  "run_once (sample_engine 392091874 2) ''hdfs://h'' ''/data/a.json'' 0 fresh_process
     = (Inl (SparkError ''executor lost''),
        \<lparr>cluster = 2, sessions = [session_options 2 ''2g''], peak_sessions = 1,
         stdout = [''File /data/a.json, run 0'']\<rparr>)"
  by (simp add: sample_first_run crashed_at_once_def)

text \<open>
  Claim C10. Every repetition, of every file, splits with seed 42 and test fraction 0.2:
  the model of a repetition that returns was fitted on the train part, and its accuracy
  measured on the test part, of that split of the filtered rows it read. Two repetitions
  whose filtered rows are the same are therefore trained and evaluated on the same
  partition.
\<close>

theorem repetitions_share_partition:
  assumes "run_once eng hdfs_path file_path i s = (Inr r, s')"
    and "run_once eng hdfs_path file_path j t = (Inr r', t')"
  shows "\<exists>df df' train_data test_data train_data' test_data'.
           (\<exists>w. fst (read_json eng (hdfs_path @ file_path) w) = Inr df)
         \<and> (\<exists>w. fst (read_json eng (hdfs_path @ file_path) w) = Inr df')
         \<and> seeded_split eng [1 - 0.2, 0.2] 42 (filter_data (order_by_count_desc eng) df)
             = Inr [train_data, test_data]
         \<and> seeded_split eng [1 - 0.2, 0.2] 42 (filter_data (order_by_count_desc eng) df')
             = Inr [train_data', test_data']
         \<and> (\<exists>model w w'. fst (pipeline_fit eng train_data w) = Inr model
               \<and> fst (accuracy_of eng model test_data w') = Inr (run_accuracy r))
         \<and> (\<exists>model w w'. fst (pipeline_fit eng train_data' w) = Inr model
               \<and> fst (accuracy_of eng model test_data' w') = Inr (run_accuracy r'))
         \<and> (filter_data (order_by_count_desc eng) df = filter_data (order_by_count_desc eng) df'
              \<longrightarrow> train_data = train_data' \<and> test_data = test_data')"
proof -
  from assms(1) obtain df train_data test_data model w1 w2 w3 where
    one: "fst (read_json eng (hdfs_path @ file_path) w1) = Inr df"
      "seeded_split eng [1 - 0.2, 0.2] 42 (filter_data (order_by_count_desc eng) df)
         = Inr [train_data, test_data]"
      "fst (pipeline_fit eng train_data w2) = Inr model"
      "fst (accuracy_of eng model test_data w3) = Inr (run_accuracy r)"
    by (rule run_once_Inr)
  from assms(2) obtain df' train_data' test_data' model' w1' w2' w3' where
    two: "fst (read_json eng (hdfs_path @ file_path) w1') = Inr df'"
      "seeded_split eng [1 - 0.2, 0.2] 42 (filter_data (order_by_count_desc eng) df')
         = Inr [train_data', test_data']"
      "fst (pipeline_fit eng train_data' w2') = Inr model'"
      "fst (accuracy_of eng model' test_data' w3') = Inr (run_accuracy r')"
    by (rule run_once_Inr)
  have "filter_data (order_by_count_desc eng) df = filter_data (order_by_count_desc eng) df'
        \<longrightarrow> train_data = train_data' \<and> test_data = test_data'"
    using one(2) two(2) by auto
  with one two show ?thesis by blast
qed

theorem repetitions_share_partition_witness:
  "run_once (sample_engine 392091874 100) ''hdfs://h'' ''/data/a.json'' 0 fresh_process
     = (Inr \<lparr>run_load_time = Finite 1, run_train_time = Finite 3, run_eval_time = Finite 5,
             run_total_time = Finite 16, run_accuracy = 1 / 2, run_fileSize = 392091874, run_executor_cores = ''2'',
             run_executor_memory = ''2g'', run_max_cores = ''2''\<rparr>,
        first_run_done)
   \<and> run_once (sample_engine 392091874 100) ''hdfs://h'' ''/data/a.json'' 1 first_run_done
     = (Inr \<lparr>run_load_time = Finite 11, run_train_time = Finite 13, run_eval_time = Finite 15,
             run_total_time = Finite 56, run_accuracy = 1 / 2, run_fileSize = 392091874, run_executor_cores = ''2'',
             run_executor_memory = ''2g'', run_max_cores = ''2''\<rparr>,
        \<lparr>cluster = 10, sessions = [], peak_sessions = 1,
         stdout = [''File /data/a.json, run 0'', ''File /data/a.json, run 1'']\<rparr>)
   \<and> (\<exists>train_data test_data.
         seeded_split (sample_engine 392091874 100) [1 - 0.2, 0.2] 42
           (filter_data (order_by_count_desc (sample_engine 392091874 100)) sample_rows)
         = Inr [train_data, test_data])"
proof -
  have one: "run_once (sample_engine 392091874 100) ''hdfs://h'' ''/data/a.json'' 0 fresh_process
     = (Inr \<lparr>run_load_time = Finite 1, run_train_time = Finite 3, run_eval_time = Finite 5,
             run_total_time = Finite 16, run_accuracy = 1 / 2, run_fileSize = 392091874, run_executor_cores = ''2'',
             run_executor_memory = ''2g'', run_max_cores = ''2''\<rparr>,
        first_run_done)"
    by (simp add: sample_first_run)
  have two: "run_once (sample_engine 392091874 100) ''hdfs://h'' ''/data/a.json'' 1 first_run_done
     = (Inr \<lparr>run_load_time = Finite 11, run_train_time = Finite 13, run_eval_time = Finite 15,
             run_total_time = Finite 56, run_accuracy = 1 / 2, run_fileSize = 392091874, run_executor_cores = ''2'',
             run_executor_memory = ''2g'', run_max_cores = ''2''\<rparr>,
        \<lparr>cluster = 10, sessions = [], peak_sessions = 1,
         stdout = [''File /data/a.json, run 0'', ''File /data/a.json, run 1'']\<rparr>)"
    using sample_second_run by (simp add: second_run_done_def)
  from repetitions_share_partition [OF one two] one two show ?thesis
    by (auto simp add: sample_engine_sel)
qed

end
